theory Spec2Isabelle
  imports Main "HOL-Library.Word"
begin

section \<open>The Google Drive downloader (download.py)\<close>

text \<open>
  A shallow embedding of \<^verbatim>\<open>download.py\<close>. Python strings are \<open>string\<close>, a raised
  exception is the \<open>Inl\<close> side of a sum, Python's \<open>None\<close> is \<open>None\<close>, and what the
  program does to the outside world (lines printed, requests executed, files opened and
  written) is recorded in a trace of events, in the order in which it happens.
\<close>

subsection \<open>Exceptions and string helpers\<close>

datatype error =
    ValueError string
  | KeyError string
  | TypeError string
  | OSError string

text \<open>\<^verbatim>\<open>s.startswith(p)\<close>\<close>

definition startswith :: "string \<Rightarrow> string \<Rightarrow> bool" where
  "startswith s p = (take (length p) s = p)"

text \<open>
  \<^verbatim>\<open>s.split(sep)\<close> for a separator of one character: the list of the segments
  between the separators, never empty.
\<close>

fun split_str :: "char \<Rightarrow> string \<Rightarrow> string list" where
  "split_str sep [] = [[]]"
| "split_str sep (c # cs) =
     (if c = sep then [] # split_str sep cs
      else (case split_str sep cs of
              [] \<Rightarrow> [[c]]
            | w # ws \<Rightarrow> (c # w) # ws))"

subsection \<open>parse\_URL\<close>

text \<open>The character class \<^verbatim>\<open>[a-zA-Z0-9_-]\<close> of \<^verbatim>\<open>file_id_pattern\<close>.\<close>

definition id_char :: "char \<Rightarrow> bool" where
  "id_char c =
     (let n = (of_char c :: nat)
      in (97 \<le> n \<and> n \<le> 122) \<or> (65 \<le> n \<and> n \<le> 90) \<or> (48 \<le> n \<and> n \<le> 57)
         \<or> c = CHR ''_'' \<or> c = CHR ''-'')"

text \<open>
  The pattern \<^verbatim>\<open>/d/([a-zA-Z0-9_-]+)\<close> tried at the start of \<open>s\<close>: the literal
  \<^verbatim>\<open>/d/\<close>, then the greedy, non-empty run of class characters, which is group 1.
\<close>

definition match_here :: "string \<Rightarrow> string option" where
  "match_here s =
     (if startswith s ''/d/'' \<and> takeWhile id_char (drop 3 s) \<noteq> []
      then Some (takeWhile id_char (drop 3 s)) else None)"

text \<open>\<^verbatim>\<open>re.search\<close>: the match at the leftmost position where the pattern matches.\<close>

fun re_search :: "string \<Rightarrow> string option" where
  "re_search [] = None"
| "re_search (c # cs) =
     (case match_here (c # cs) of
        Some g \<Rightarrow> Some g
      | None \<Rightarrow> re_search cs)"

definition parse_URL :: "string \<Rightarrow> error + string" where
  "parse_URL url =
     (case re_search url of
        Some file_id \<Rightarrow> Inr file_id
      | None \<Rightarrow> Inl (ValueError ''Invalid URL''))"

subsection \<open>get\_file\_extension\<close>

definition get_file_extension :: "string \<Rightarrow> string" where
  "get_file_extension mime_type =
     (if mime_type = ''application/vnd.google-apps.document'' then ''.docx''
      else if mime_type = ''application/vnd.google-apps.spreadsheet'' then ''.xlsx''
      else if mime_type = ''application/vnd.google-apps.presentation'' then ''.pptx''
      else '''')"

subsection \<open>The remote service and the events of a run\<close>

type_synonym bytes = "8 word list"

text \<open>
  What a call of the API client gives back: it raises \<^verbatim>\<open>HttpError\<close> (carrying the
  text that \<^verbatim>\<open>str(error)\<close> prints) or returns a value. \<^verbatim>\<open>HttpError\<close> is the one
  exception of the client that the source handles, and the one that the model has.
\<close>

datatype 'a response = HttpError string | Ok 'a

text \<open>
  The \<^verbatim>\<open>service\<close> object that \<^verbatim>\<open>init()\<close> returns, as the answers of the remote side:
  \<^item> \<open>files_get file_id\<close>: the answer to \<^verbatim>\<open>service.files().get(fileId=file_id).execute()\<close>,
    a dictionary of metadata;
  \<^item> \<open>files_get_media file_id n\<close>: the answer to call number \<open>n\<close> of
    \<^verbatim>\<open>downloader.next_chunk()\<close> on the request \<^verbatim>\<open>get_media(fileId=file_id)\<close>: the bytes
    that the call appends to the buffer, and the flag \<^verbatim>\<open>done\<close>;
  \<^item> \<open>files_export_media file_id mime n\<close>: the same for the request
    \<^verbatim>\<open>export_media(fileId=file_id, mimeType=mime)\<close>.
\<close>

record service =
  files_get :: "string \<Rightarrow> (string \<times> string) list response"
  files_get_media :: "string \<Rightarrow> nat \<Rightarrow> (bytes \<times> bool) response"
  files_export_media :: "string \<Rightarrow> string \<Rightarrow> nat \<Rightarrow> (bytes \<times> bool) response"

datatype request =
    Get string
  | GetMedia string
  | ExportMedia string string

datatype event =
    Print string
  | Execute request
  | NextChunk request nat
  | OpenWb string
  | Write string bytes

definition SCOPES :: "string list" where
  "SCOPES = [''https://www.googleapis.com/auth/drive'']"

definition OUTPUT_DIR :: string where
  "OUTPUT_DIR = ''output/''"

subsection \<open>get\_meta\<close>

text \<open>
  The result is the exception that leaves the function (\<open>Inl\<close>; a missing key is not
  caught by \<^verbatim>\<open>except HttpError\<close>), or the value returned: the pair, or \<open>None\<close> when
  the handler has printed the error and the function falls off its end.
\<close>

definition get_meta :: "string \<Rightarrow> service \<Rightarrow> (error + (string \<times> string) option) \<times> event list" where
  "get_meta file_id service =
     (case files_get service file_id of
        HttpError error \<Rightarrow>
          (Inr None,
           [Execute (Get file_id), Print (''HTTP error occurred while fetching meta: '' @ error)])
      | Ok meta \<Rightarrow>
          (case map_of meta ''name'' of
             None \<Rightarrow> (Inl (KeyError ''name''), [Execute (Get file_id)])
           | Some name \<Rightarrow>
               (case map_of meta ''mimeType'' of
                  None \<Rightarrow> (Inl (KeyError ''mimeType''), [Execute (Get file_id)])
                | Some mime_type \<Rightarrow> (Inr (Some (name, mime_type)), [Execute (Get file_id)]))))"

subsection \<open>download\_file and export\_file\<close>

text \<open>
  The loop \<^verbatim>\<open>while done is False: _, done = downloader.next_chunk()\<close> that both
  functions run inside their \<^verbatim>\<open>try\<close>. \<open>n\<close> counts the calls made so far, \<open>file\<close> is the
  content of the \<^verbatim>\<open>BytesIO\<close> buffer, \<open>tr\<close> the events so far. The loop ends when a call
  raises (\<open>Inl\<close>, the buffer is dropped) or reports \<^verbatim>\<open>done\<close> (\<open>Inr\<close>, the buffer); a
  remote side that never reports \<^verbatim>\<open>done\<close> keeps it running forever, which is the value
  \<open>None\<close>.
\<close>

partial_function (option) download_loop ::
  "(nat \<Rightarrow> (bytes \<times> bool) response) \<Rightarrow> request \<Rightarrow> nat \<Rightarrow> bytes \<Rightarrow> event list
     \<Rightarrow> ((string + bytes) \<times> event list) option" where
  "download_loop chunks req n file tr =
     (case chunks n of
        HttpError error \<Rightarrow> Some (Inl error, tr @ [NextChunk req n])
      | Ok (data, done) \<Rightarrow>
          (if done then Some (Inr (file @ data), tr @ [NextChunk req n])
           else download_loop chunks req (Suc n) (file @ data) (tr @ [NextChunk req n])))"

declare download_loop.simps [code]

text \<open>The result is the buffer, or \<open>None\<close> after \<^verbatim>\<open>file = None\<close> in the handler.\<close>

definition download_file :: "string \<Rightarrow> service \<Rightarrow> (bytes option \<times> event list) option" where
  "download_file file_id service =
     (case download_loop (files_get_media service file_id) (GetMedia file_id) 0 [] [] of
        None \<Rightarrow> None
      | Some (Inl error, tr) \<Rightarrow>
          Some (None, tr @ [Print (''HTTP error occurred while downloading file: '' @ error)])
      | Some (Inr file, tr) \<Rightarrow> Some (Some file, tr))"

definition MIME_TYPE_WORD_PREFIX :: string where
  "MIME_TYPE_WORD_PREFIX = ''application/vnd.openxmlformats-officedocument''"

definition MIME_TYPE_INDEX :: "(string \<times> string) list" where
  "MIME_TYPE_INDEX =
     [(''document'', ''wordprocessingml.document''),
      (''spreadsheet'', ''spreadsheetml.sheet''),
      (''presentation'', ''presentationml.presentation'')]"

text \<open>
  The dictionary lookup \<^verbatim>\<open>MIME_TYPE_INDEX[document_type]\<close> stands before the
  \<^verbatim>\<open>try\<close>: a missing key leaves the function as \<^verbatim>\<open>KeyError\<close>.
\<close>

definition export_file ::
  "string \<Rightarrow> string \<Rightarrow> service \<Rightarrow> ((error + bytes option) \<times> event list) option" where
  "export_file file_id mime_type service =
     (let document_type = last (split_str (CHR ''.'') mime_type)
      in case map_of MIME_TYPE_INDEX document_type of
           None \<Rightarrow> Some (Inl (KeyError document_type), [])
         | Some target \<Rightarrow>
             (let request_mime_type = MIME_TYPE_WORD_PREFIX @ ''.'' @ target
              in case download_loop (files_export_media service file_id request_mime_type)
                        (ExportMedia file_id request_mime_type) 0 [] [] of
                   None \<Rightarrow> None
                 | Some (Inl error, tr) \<Rightarrow>
                     Some (Inr None,
                           tr @ [Print (''HTTP error occurred while downloading file: '' @ error)])
                 | Some (Inr file, tr) \<Rightarrow> Some (Inr (Some file), tr)))"

subsection \<open>save\_file\<close>

text \<open>\<^verbatim>\<open>os.path.join(a, b)\<close> (posixpath, two components).\<close>

definition os_path_join :: "string \<Rightarrow> string \<Rightarrow> string" where
  "os_path_join a b =
     (if startswith b ''/'' then b
      else if a = [] \<or> last a = CHR ''/'' then a @ b
      else a @ ''/'' @ b)"

text \<open>
  What the disk does when a path is opened with mode \<^verbatim>\<open>"wb"\<close> and a buffer is written:
  the open fails, or the file is created or truncated and the write stops with an error
  after some bytes, or the write completes. A path is the string that the program hands
  to \<^verbatim>\<open>open\<close>, and the files on disk are kept under these strings: which directory a
  path with \<^verbatim>\<open>..\<close> components or links leads to is the file system's matter and not
  part of the model.
\<close>

datatype disk_outcome = OpenFails | WriteStops nat | WriteCompletes

definition save_file ::
  "bytes \<Rightarrow> string \<Rightarrow> (string \<Rightarrow> disk_outcome) \<Rightarrow> (string \<rightharpoonup> bytes)
     \<Rightarrow> error option \<times> (string \<rightharpoonup> bytes) \<times> event list" where
  "save_file file filename disk fs =
     (let path = os_path_join OUTPUT_DIR filename
      in case disk path of
           OpenFails \<Rightarrow> (Some (OSError path), fs, [OpenWb path])
         | WriteStops n \<Rightarrow>
             (Some (OSError path), fs(path \<mapsto> take n file),
              [OpenWb path, Write path (take n file)])
         | WriteCompletes \<Rightarrow> (None, fs(path \<mapsto> file), [OpenWb path, Write path file]))"

subsection \<open>The main flow\<close>

text \<open>
  A finished run: the exception that ended it, if any, the files on disk and the events.
\<close>

record run =
  raised :: "error option"
  files :: "string \<rightharpoonup> bytes"
  trace :: "event list"

text \<open>
  Lines 175 to 181: the choice between \<^verbatim>\<open>export_file\<close> and \<^verbatim>\<open>download_file\<close>. The
  result is \<^verbatim>\<open>file_media\<close> and the value of \<^verbatim>\<open>name\<close> after the block.
\<close>

definition retrieve ::
  "string \<Rightarrow> string \<Rightarrow> string \<Rightarrow> string \<Rightarrow> service
     \<Rightarrow> ((error + bytes option \<times> string) \<times> event list) option" where
  "retrieve url file_id name mime_type service =
     (if startswith mime_type ''application/vnd.google-apps'' then
        (case export_file file_id mime_type service of
           None \<Rightarrow> None
         | Some (Inl e, tr) \<Rightarrow> Some (Inl e, tr)
         | Some (Inr file_media, tr) \<Rightarrow>
             (let extension = get_file_extension mime_type
              in Some (Inr (file_media, name @ extension), tr)))
      else
        (case parse_URL url of
           Inl e \<Rightarrow> Some (Inl e, [])
         | Inr file_id' \<Rightarrow>
             (case download_file file_id' service of
                None \<Rightarrow> None
              | Some (file_media, tr) \<Rightarrow> Some (Inr (file_media, name), tr))))"

text \<open>Lines 182 to 186: the confirmation and the write, or the failure message.\<close>

definition report_and_save ::
  "bytes option \<Rightarrow> string \<Rightarrow> (string \<Rightarrow> disk_outcome) \<Rightarrow> (string \<rightharpoonup> bytes) \<Rightarrow> event list \<Rightarrow> run" where
  "report_and_save file_media name disk fs tr =
     (case file_media of
        Some file \<Rightarrow>
          (case save_file file name disk fs of
             (exn, fs', tr') \<Rightarrow>
               \<lparr>raised = exn, files = fs',
                trace = tr @ [Print (''Downloaded '' @ name @ ''!'')] @ tr'\<rparr>)
      | None \<Rightarrow>
          \<lparr>raised = None, files = fs,
           trace = tr @ [Print ''Failed to download file with id {file_id}...'']\<rparr>)"

text \<open>
  The block under \<^verbatim>\<open>if __name__ == "__main__"\<close>, for the command-line argument
  \<open>url\<close>, with \<^verbatim>\<open>init()\<close> having returned \<open>service\<close>. Unpacking the \<open>None\<close> that
  \<^verbatim>\<open>get_meta\<close> returns after a transport error raises \<^verbatim>\<open>TypeError\<close>. The value \<open>None\<close>
  of \<open>main\<close> itself is a run that never ends.
\<close>

definition main ::
  "string \<Rightarrow> service \<Rightarrow> (string \<Rightarrow> disk_outcome) \<Rightarrow> (string \<rightharpoonup> bytes) \<Rightarrow> run option" where
  "main url service disk fs =
     (case parse_URL url of
        Inl e \<Rightarrow> Some \<lparr>raised = Some e, files = fs, trace = []\<rparr>
      | Inr file_id \<Rightarrow>
          (case get_meta file_id service of
             (Inl e, tr) \<Rightarrow> Some \<lparr>raised = Some e, files = fs, trace = tr\<rparr>
           | (Inr None, tr) \<Rightarrow>
               Some \<lparr>raised = Some (TypeError ''cannot unpack non-iterable NoneType object''),
                     files = fs, trace = tr\<rparr>
           | (Inr (Some (name, mime_type)), tr) \<Rightarrow>
               (case retrieve url file_id name mime_type service of
                  None \<Rightarrow> None
                | Some (Inl e, tr') \<Rightarrow> Some \<lparr>raised = Some e, files = fs, trace = tr @ tr'\<rparr>
                | Some (Inr (file_media, name'), tr') \<Rightarrow>
                    Some (report_and_save file_media name' disk fs (tr @ tr')))))"

section \<open>Vocabulary of the properties\<close>

subsection \<open>Matches of the file id pattern\<close>

text \<open>
  The pattern matches in \<open>s\<close> right behind the prefix \<open>pre\<close>: there stands \<^verbatim>\<open>/d/\<close>
  and then at least one character of the class.
\<close>

definition matches_after :: "string \<Rightarrow> string \<Rightarrow> bool" where
  "matches_after pre s \<longleftrightarrow> (\<exists>c rest. s = pre @ ''/d/'' @ c # rest \<and> id_char c)"

text \<open>
  \<open>tok\<close> is the token of the leftmost match in \<open>s\<close>: a non-empty run of class
  characters behind a \<^verbatim>\<open>/d/\<close>, which the next character (if any) does not extend, and
  no match starts further left.
\<close>

definition leftmost_token :: "string \<Rightarrow> string \<Rightarrow> bool" where
  "leftmost_token s tok \<longleftrightarrow>
     (\<exists>pre post. s = pre @ ''/d/'' @ tok @ post \<and> tok \<noteq> [] \<and> (\<forall>c\<in>set tok. id_char c)
        \<and> (post = [] \<or> \<not> id_char (hd post))
        \<and> (\<forall>p. matches_after p s \<longrightarrow> length pre \<le> length p))"

text \<open>
  Stated from the words of the specification, for comparison with \<open>parse_URL\<close>: the
  text behind the first \<^verbatim>\<open>/d/\<close> of the string, and the maximal run of class characters
  with which that text begins.
\<close>

fun after_first_d :: "string \<Rightarrow> string" where
  "after_first_d [] = []"
| "after_first_d (c # cs) =
     (if startswith (c # cs) ''/d/'' then drop 3 (c # cs) else after_first_d cs)"

definition token_after_first_d :: "string \<Rightarrow> string" where
  "token_after_first_d url = takeWhile id_char (after_first_d url)"

subsection \<open>Transfers\<close>

text \<open>The bytes that one call of \<^verbatim>\<open>next_chunk\<close> appends to the buffer.\<close>

fun chunk_data :: "(bytes \<times> bool) response \<Rightarrow> bytes" where
  "chunk_data (Ok (d, done)) = d"
| "chunk_data (HttpError e) = []"

text \<open>A call after which the loop does not go on: it raises, or it reports \<^verbatim>\<open>done\<close>.\<close>

definition terminal :: "(bytes \<times> bool) response \<Rightarrow> bool" where
  "terminal r \<longleftrightarrow> (case r of HttpError e \<Rightarrow> True | Ok (d, done) \<Rightarrow> done)"

text \<open>
  The transfer fails at call \<open>k\<close> with the error \<open>e\<close>: the calls before it deliver data
  without \<^verbatim>\<open>done\<close>, call \<open>k\<close> raises. For \<open>0 < k\<close> this is a failure in the middle of the
  transfer.
\<close>

definition fails_at :: "(nat \<Rightarrow> (bytes \<times> bool) response) \<Rightarrow> nat \<Rightarrow> string \<Rightarrow> bool" where
  "fails_at chunks k e \<longleftrightarrow>
     (\<forall>i<k. \<exists>d. chunks i = Ok (d, False)) \<and> chunks k = HttpError e"

text \<open>The transfer completes with call \<open>k\<close>, the first to report \<^verbatim>\<open>done\<close>.\<close>

definition completes_at :: "(nat \<Rightarrow> (bytes \<times> bool) response) \<Rightarrow> nat \<Rightarrow> bool" where
  "completes_at chunks k \<longleftrightarrow>
     (\<forall>i<k. \<exists>d. chunks i = Ok (d, False)) \<and> (\<exists>d. chunks k = Ok (d, True))"

text \<open>The payload: the data of the calls \<open>0\<close> to \<open>k\<close>, in order.\<close>

definition payload :: "(nat \<Rightarrow> (bytes \<times> bool) response) \<Rightarrow> nat \<Rightarrow> bytes" where
  "payload chunks k = concat (map (\<lambda>i. chunk_data (chunks i)) [0..<Suc k])"

text \<open>The events of the calls \<open>0\<close> to \<open>k\<close> of \<^verbatim>\<open>next_chunk\<close>, each made once.\<close>

definition chunk_calls :: "request \<Rightarrow> nat \<Rightarrow> event list" where
  "chunk_calls req k = map (NextChunk req) [0..<Suc k]"

subsection \<open>Kinds of events\<close>

fun is_disk_event :: "event \<Rightarrow> bool" where
  "is_disk_event (OpenWb p) = True"
| "is_disk_event (Write p d) = True"
| "is_disk_event (Print s) = False"
| "is_disk_event (Execute r) = False"
| "is_disk_event (NextChunk r n) = False"

fun is_open :: "event \<Rightarrow> bool" where
  "is_open (OpenWb p) = True"
| "is_open (Write p d) = False"
| "is_open (Print s) = False"
| "is_open (Execute r) = False"
| "is_open (NextChunk r n) = False"

text \<open>The path that a disk event is about.\<close>

fun event_path :: "event \<Rightarrow> string option" where
  "event_path (OpenWb p) = Some p"
| "event_path (Write p d) = Some p"
| "event_path (Print s) = None"
| "event_path (Execute r) = None"
| "event_path (NextChunk r n) = None"

fun is_media_call :: "event \<Rightarrow> bool" where
  "is_media_call (NextChunk (GetMedia f) n) = True"
| "is_media_call (NextChunk (ExportMedia f m) n) = False"
| "is_media_call (NextChunk (Get f) n) = False"
| "is_media_call (OpenWb p) = False"
| "is_media_call (Write p d) = False"
| "is_media_call (Print s) = False"
| "is_media_call (Execute r) = False"

fun is_export_call :: "event \<Rightarrow> bool" where
  "is_export_call (NextChunk (ExportMedia f m) n) = True"
| "is_export_call (NextChunk (GetMedia f) n) = False"
| "is_export_call (NextChunk (Get f) n) = False"
| "is_export_call (OpenWb p) = False"
| "is_export_call (Write p d) = False"
| "is_export_call (Print s) = False"
| "is_export_call (Execute r) = False"

text \<open>
  Stated from the words of the specification, for comparison with the test in the main
  flow: the native online-document types, which are document, spreadsheet and
  presentation.
\<close>

definition native_online_document :: "string \<Rightarrow> bool" where
  "native_online_document mime_type \<longleftrightarrow>
     mime_type = ''application/vnd.google-apps.document''
     \<or> mime_type = ''application/vnd.google-apps.spreadsheet''
     \<or> mime_type = ''application/vnd.google-apps.presentation''"

subsection \<open>Sample services\<close>

text \<open>Five files of a sample drive; every other identifier is unknown to it.\<close>

definition sample_meta :: "string \<Rightarrow> (string \<times> string) list response" where
  "sample_meta file_id =
     (if file_id = ''pdf1'' then
        Ok [(''kind'', ''drive#file''), (''name'', ''report.pdf''), (''mimeType'', ''application/pdf'')]
      else if file_id = ''doc1'' then
        Ok [(''name'', ''Notes''), (''mimeType'', ''application/vnd.google-apps.document'')]
      else if file_id = ''draw1'' then
        Ok [(''name'', ''Sketch''), (''mimeType'', ''application/vnd.google-apps.drawing'')]
      else if file_id = ''abs1'' then
        Ok [(''name'', ''/tmp/x''), (''mimeType'', ''text/plain'')]
      else if file_id = ''rel1'' then
        Ok [(''name'', ''../up.bin''), (''mimeType'', ''text/plain'')]
      else HttpError ''404'')"

text \<open>A transfer of three bytes in two chunks, and one that breaks at its second chunk.\<close>

definition two_chunks :: "nat \<Rightarrow> (bytes \<times> bool) response" where
  "two_chunks n = (if n = 0 then Ok ([1, 2], False) else Ok ([3], True))"

definition broken_chunks :: "nat \<Rightarrow> (bytes \<times> bool) response" where
  "broken_chunks n = (if n = 0 then Ok ([1, 2], False) else HttpError ''503'')"

definition sample_service :: service where
  "sample_service =
     \<lparr>files_get = sample_meta,
      files_get_media = (\<lambda>file_id. two_chunks),
      files_export_media = (\<lambda>file_id mime. two_chunks)\<rparr>"

definition flaky_service :: service where
  "flaky_service =
     \<lparr>files_get = sample_meta,
      files_get_media = (\<lambda>file_id. broken_chunks),
      files_export_media = (\<lambda>file_id mime. broken_chunks)\<rparr>"

definition offline_service :: service where
  "offline_service =
     \<lparr>files_get = (\<lambda>file_id. HttpError ''503''),
      files_get_media = (\<lambda>file_id n. HttpError ''503''),
      files_export_media = (\<lambda>file_id mime n. HttpError ''503'')\<rparr>"

section \<open>The URL parser\<close>

lemma startswith_d: "startswith s ''/d/'' \<longleftrightarrow> (\<exists>r. s = ''/d/'' @ r)"
proof
  assume "startswith s ''/d/''"
  then have "take (length ''/d/'') s = ''/d/''" unfolding startswith_def .
  then have "s = ''/d/'' @ drop (length ''/d/'') s" by (metis append_take_drop_id)
  then show "\<exists>r. s = ''/d/'' @ r" ..
next
  assume "\<exists>r. s = ''/d/'' @ r"
  then show "startswith s ''/d/''" by (auto simp: startswith_def)
qed

lemma maximal_run:
  "takeWhile id_char r = g \<longleftrightarrow>
     (\<exists>post. r = g @ post \<and> (\<forall>c\<in>set g. id_char c) \<and> (post = [] \<or> \<not> id_char (hd post)))"
proof
  assume "takeWhile id_char r = g"
  then have "r = g @ dropWhile id_char r" "\<forall>c\<in>set g. id_char c"
    by (auto dest: set_takeWhileD)
  moreover have "dropWhile id_char r = [] \<or> \<not> id_char (hd (dropWhile id_char r))"
    using hd_dropWhile by blast
  ultimately show
    "\<exists>post. r = g @ post \<and> (\<forall>c\<in>set g. id_char c) \<and> (post = [] \<or> \<not> id_char (hd post))"
    by blast
next
  assume "\<exists>post. r = g @ post \<and> (\<forall>c\<in>set g. id_char c) \<and> (post = [] \<or> \<not> id_char (hd post))"
  then obtain post where r: "r = g @ post" and g: "\<forall>c\<in>set g. id_char c"
    and post: "post = [] \<or> \<not> id_char (hd post)" by blast
  show "takeWhile id_char r = g"
  proof (cases post)
    case Nil
    with r g show ?thesis by simp
  next
    case (Cons x xs)
    with post have "\<not> id_char x" by simp
    with r g Cons show ?thesis by (simp add: takeWhile_tail)
  qed
qed

lemma run_nonempty: "takeWhile id_char r \<noteq> [] \<longleftrightarrow> (\<exists>c rest. r = c # rest \<and> id_char c)"
  by (cases r) auto

lemma match_here_None: "match_here s = None \<longleftrightarrow> \<not> matches_after [] s"
proof -
  have "matches_after [] s \<longleftrightarrow> (\<exists>r. s = ''/d/'' @ r \<and> takeWhile id_char r \<noteq> [])"
    unfolding matches_after_def run_nonempty by auto
  also have "\<dots> \<longleftrightarrow> startswith s ''/d/'' \<and> takeWhile id_char (drop 3 s) \<noteq> []"
    unfolding startswith_d by auto
  finally show ?thesis by (simp add: match_here_def)
qed

lemma match_here_Some:
  "match_here s = Some g \<longleftrightarrow>
     (\<exists>post. s = ''/d/'' @ g @ post \<and> g \<noteq> [] \<and> (\<forall>c\<in>set g. id_char c)
        \<and> (post = [] \<or> \<not> id_char (hd post)))"
proof -
  have "match_here s = Some g \<longleftrightarrow> (\<exists>r. s = ''/d/'' @ r \<and> takeWhile id_char r = g \<and> g \<noteq> [])"
    unfolding match_here_def startswith_d by auto
  also have "\<dots> \<longleftrightarrow> (\<exists>post. s = ''/d/'' @ g @ post \<and> g \<noteq> [] \<and> (\<forall>c\<in>set g. id_char c)
        \<and> (post = [] \<or> \<not> id_char (hd post)))"
    unfolding maximal_run by auto
  finally show ?thesis .
qed

lemma matches_after_Cons: "matches_after (x # p) (y # s) \<longleftrightarrow> x = y \<and> matches_after p s"
  by (auto simp: matches_after_def)

lemma matches_after_Nil_right: "\<not> matches_after p []"
  by (simp add: matches_after_def)

text \<open>The search fails exactly on the strings in which the pattern matches nowhere.\<close>

lemma re_search_None: "re_search s = None \<longleftrightarrow> (\<forall>p. \<not> matches_after p s)"
proof (induction s)
  case Nil
  show ?case by (simp add: matches_after_Nil_right)
next
  case (Cons c cs)
  have "(\<forall>p. \<not> matches_after p (c # cs)) \<longleftrightarrow>
        \<not> matches_after [] (c # cs) \<and> (\<forall>p. \<not> matches_after p cs)"
  proof
    assume a: "\<forall>p. \<not> matches_after p (c # cs)"
    then have "\<forall>p. \<not> matches_after (c # p) (c # cs)" by blast
    then have "\<forall>p. \<not> matches_after p cs" unfolding matches_after_Cons by simp
    with a show "\<not> matches_after [] (c # cs) \<and> (\<forall>p. \<not> matches_after p cs)"
      by blast
  next
    assume a: "\<not> matches_after [] (c # cs) \<and> (\<forall>p. \<not> matches_after p cs)"
    show "\<forall>p. \<not> matches_after p (c # cs)"
    proof
      fix p show "\<not> matches_after p (c # cs)"
        using a by (cases p) (auto simp: matches_after_Cons)
    qed
  qed
  moreover have "match_here (c # cs) \<noteq> None \<longleftrightarrow> matches_after [] (c # cs)"
    by (simp add: match_here_None)
  ultimately show ?case using Cons
    by (cases "match_here (c # cs)") auto
qed

lemma leftmost_token_here:
  assumes "matches_after [] s"
  shows "leftmost_token s g \<longleftrightarrow> match_here s = Some g"
proof
  assume "leftmost_token s g"
  then obtain pre post where d: "s = pre @ ''/d/'' @ g @ post" "g \<noteq> []" "\<forall>c\<in>set g. id_char c"
      "post = [] \<or> \<not> id_char (hd post)"
    and m: "\<forall>p. matches_after p s \<longrightarrow> length pre \<le> length p"
    unfolding leftmost_token_def by blast
  from m assms have "pre = []" by fastforce
  with d show "match_here s = Some g" unfolding match_here_Some by auto
next
  assume "match_here s = Some g"
  then obtain post where "s = [] @ ''/d/'' @ g @ post" "g \<noteq> []" "\<forall>c\<in>set g. id_char c"
      "post = [] \<or> \<not> id_char (hd post)"
    unfolding match_here_Some by auto
  then show "leftmost_token s g"
    unfolding leftmost_token_def by (intro exI[of _ "[]"] exI[of _ post]) simp
qed

lemma leftmost_token_later:
  assumes "\<not> matches_after [] (c # cs)"
  shows "leftmost_token (c # cs) g \<longleftrightarrow> leftmost_token cs g"
proof
  assume "leftmost_token (c # cs) g"
  then obtain pre post where d: "c # cs = pre @ ''/d/'' @ g @ post" "g \<noteq> []"
      "\<forall>c\<in>set g. id_char c" "post = [] \<or> \<not> id_char (hd post)"
    and m: "\<forall>p. matches_after p (c # cs) \<longrightarrow> length pre \<le> length p"
    unfolding leftmost_token_def by blast
  from d(2) obtain x xs where g: "g = x # xs" by (cases g) auto
  with d(3) have x: "id_char x" by simp
  have "pre \<noteq> []"
  proof
    assume "pre = []"
    with d(1) g x have "matches_after [] (c # cs)" unfolding matches_after_def by auto
    with assms show False by simp
  qed
  then obtain pre' where pre: "pre = c # pre'" using d(1) by (cases pre) auto
  with d(1) have cs: "cs = pre' @ ''/d/'' @ g @ post" by simp
  have "\<forall>p. matches_after p cs \<longrightarrow> length pre' \<le> length p"
  proof (intro allI impI)
    fix p assume "matches_after p cs"
    then have "matches_after (c # p) (c # cs)" by (simp add: matches_after_Cons)
    with m pre show "length pre' \<le> length p" by fastforce
  qed
  with cs d show "leftmost_token cs g" unfolding leftmost_token_def by blast
next
  assume "leftmost_token cs g"
  then obtain pre post where d: "cs = pre @ ''/d/'' @ g @ post" "g \<noteq> []"
      "\<forall>c\<in>set g. id_char c" "post = [] \<or> \<not> id_char (hd post)"
    and m: "\<forall>p. matches_after p cs \<longrightarrow> length pre \<le> length p"
    unfolding leftmost_token_def by blast
  have "\<forall>p. matches_after p (c # cs) \<longrightarrow> length (c # pre) \<le> length p"
  proof (intro allI impI)
    fix p assume a: "matches_after p (c # cs)"
    with assms obtain p' where p: "p = c # p'" "matches_after p' cs"
      by (cases p) (auto simp: matches_after_Cons)
    with m show "length (c # pre) \<le> length p" by simp
  qed
  moreover from d(1) have "c # cs = (c # pre) @ ''/d/'' @ g @ post" by simp
  ultimately show "leftmost_token (c # cs) g"
    using d(2-4) unfolding leftmost_token_def by blast
qed

text \<open>The search finds exactly the token of the leftmost match.\<close>

lemma re_search_Some: "re_search s = Some g \<longleftrightarrow> leftmost_token s g"
proof (induction s)
  case Nil
  show ?case by (simp add: leftmost_token_def)
next
  case (Cons c cs)
  show ?case
  proof (cases "matches_after [] (c # cs)")
    case True
    then obtain g' where "match_here (c # cs) = Some g'"
      using match_here_None by (cases "match_here (c # cs)") auto
    with True show ?thesis by (simp add: leftmost_token_here)
  next
    case False
    then have "match_here (c # cs) = None" by (simp add: match_here_None)
    with False Cons show ?thesis by (simp add: leftmost_token_later)
  qed
qed

text \<open>
  Claim C1, as the code has it. \<open>parse_URL\<close> returns \<open>tok\<close> exactly when \<open>tok\<close> is the
  token of the leftmost match of \<^verbatim>\<open>/d/([a-zA-Z0-9_-]+)\<close>: the maximal non-empty run of
  class characters behind the first \<^verbatim>\<open>/d/\<close> that is directly followed by a class
  character. It raises \<^verbatim>\<open>ValueError("Invalid URL")\<close> exactly when the pattern matches
  nowhere, and it raises nothing else; being a function of the URL alone, it does
  nothing besides.
\<close>

theorem parse_URL_leftmost_match:
  "(parse_URL url = Inr tok \<longleftrightarrow> leftmost_token url tok)
   \<and> (parse_URL url = Inl e \<longleftrightarrow> e = ValueError ''Invalid URL'' \<and> (\<forall>p. \<not> matches_after p url))"
proof -
  have "parse_URL url = Inr tok \<longleftrightarrow> re_search url = Some tok"
    by (simp add: parse_URL_def split: option.splits)
  moreover have "parse_URL url = Inl e \<longleftrightarrow> e = ValueError ''Invalid URL'' \<and> re_search url = None"
    by (auto simp: parse_URL_def split: option.splits)
  ultimately show ?thesis
    by (simp add: re_search_Some re_search_None)
qed

theorem parse_URL_leftmost_match_witness:
  "leftmost_token ''https://drive.google.com/file/d/1aBcD_23xyZ/view'' ''1aBcD_23xyZ''
   \<and> parse_URL ''https://drive.google.com/file/d/1aBcD_23xyZ/view'' = Inr ''1aBcD_23xyZ''
   \<and> leftmost_token ''/d//d/abc'' ''abc''
   \<and> (\<forall>p. \<not> matches_after p ''https://drive.google.com/drive/my-drive'')
   \<and> parse_URL ''https://drive.google.com/drive/my-drive'' = Inl (ValueError ''Invalid URL'')"
proof -
  have a: "parse_URL ''https://drive.google.com/file/d/1aBcD_23xyZ/view'' = Inr ''1aBcD_23xyZ''"
    by (simp add: parse_URL_def match_here_def startswith_def id_char_def)
  have b: "parse_URL ''/d//d/abc'' = Inr ''abc''"
    by (simp add: parse_URL_def match_here_def startswith_def id_char_def)
  have c: "parse_URL ''https://drive.google.com/drive/my-drive'' = Inl (ValueError ''Invalid URL'')"
    by (simp add: parse_URL_def match_here_def startswith_def id_char_def)
  show ?thesis
    using a b c
      parse_URL_leftmost_match [of "''https://drive.google.com/file/d/1aBcD_23xyZ/view''"
        "''1aBcD_23xyZ''" "ValueError ''Invalid URL''"]
      parse_URL_leftmost_match [of "''/d//d/abc''" "''abc''" "ValueError ''Invalid URL''"]
      parse_URL_leftmost_match [of "''https://drive.google.com/drive/my-drive''" "''x''"
        "ValueError ''Invalid URL''"]
    by blast
qed

text \<open>
  Claim C1 as stated fails where the first \<^verbatim>\<open>/d/\<close> is not followed by a class character
  and a later one is: the URL contains \<^verbatim>\<open>/d/abc\<close>, the run behind its first \<^verbatim>\<open>/d/\<close> is
  empty, and the parser returns \<^verbatim>\<open>abc\<close>, the run behind the second.
\<close>

theorem parse_URL_first_d_counterexample:
  "''/d//d/abc'' = ''/d/'' @ ''/d/'' @ ''abc''
   \<and> parse_URL ''/d//d/abc'' = Inr ''abc''
   \<and> token_after_first_d ''/d//d/abc'' = []
   \<and> parse_URL ''/d//d/abc'' \<noteq> Inr (token_after_first_d ''/d//d/abc'')"
  by (simp add: parse_URL_def match_here_def startswith_def id_char_def token_after_first_d_def)

section \<open>The extension resolver\<close>

text \<open>
  Claim C5. \<open>get_file_extension\<close> maps the three content types of native documents to
  \<^verbatim>\<open>.docx\<close>, \<^verbatim>\<open>.xlsx\<close> and \<^verbatim>\<open>.pptx\<close>, and every other string to the empty string; it
  depends on its argument only and has a value for every string.
\<close>

theorem get_file_extension_cases:
  "get_file_extension ''application/vnd.google-apps.document'' = ''.docx''
   \<and> get_file_extension ''application/vnd.google-apps.spreadsheet'' = ''.xlsx''
   \<and> get_file_extension ''application/vnd.google-apps.presentation'' = ''.pptx''
   \<and> (mime_type \<noteq> ''application/vnd.google-apps.document''
        \<and> mime_type \<noteq> ''application/vnd.google-apps.spreadsheet''
        \<and> mime_type \<noteq> ''application/vnd.google-apps.presentation''
      \<longrightarrow> get_file_extension mime_type = [])"
  by (simp add: get_file_extension_def)

theorem get_file_extension_cases_witness:
  "''image/png'' \<noteq> ''application/vnd.google-apps.document''
   \<and> ''image/png'' \<noteq> ''application/vnd.google-apps.spreadsheet''
   \<and> ''image/png'' \<noteq> ''application/vnd.google-apps.presentation''
   \<and> get_file_extension ''image/png'' = []
   \<and> get_file_extension ''application/vnd.google-apps.drawing'' = []"
  using get_file_extension_cases [of "''image/png''"]
    get_file_extension_cases [of "''application/vnd.google-apps.drawing''"]
  by simp

section \<open>The chunk loop\<close>

lemma download_loop_raises:
  "(\<forall>i<k. \<exists>d. chunks (n + i) = Ok (d, False)) \<Longrightarrow> chunks (n + k) = HttpError e \<Longrightarrow>
   download_loop chunks req n buf tr = Some (Inl e, tr @ map (NextChunk req) [n..<Suc (n + k)])"
proof (induction k arbitrary: n buf tr)
  case 0
  then show ?case by (subst download_loop.simps) simp
next
  case (Suc k)
  from Suc.prems(1) obtain d where d: "chunks n = Ok (d, False)" by force
  have "\<forall>i<k. \<exists>d. chunks (Suc n + i) = Ok (d, False)"
    using Suc.prems(1) by (metis Suc_less_eq add_Suc_shift)
  moreover have "chunks (Suc n + k) = HttpError e" using Suc.prems(2) by simp
  ultimately have "download_loop chunks req (Suc n) (buf @ d) (tr @ [NextChunk req n])
      = Some (Inl e, (tr @ [NextChunk req n]) @ map (NextChunk req) [Suc n..<Suc (Suc n + k)])"
    by (rule Suc.IH)
  moreover have "[n..<Suc (n + Suc k)] = n # [Suc n..<Suc (Suc n + k)]"
    by (simp add: upt_conv_Cons)
  ultimately show ?case using d by (subst download_loop.simps) simp
qed

lemma download_loop_done:
  "(\<forall>i<k. \<exists>d. chunks (n + i) = Ok (d, False)) \<Longrightarrow> chunks (n + k) = Ok (d', True) \<Longrightarrow>
   download_loop chunks req n buf tr =
     Some (Inr (buf @ concat (map (\<lambda>i. chunk_data (chunks i)) [n..<Suc (n + k)])),
           tr @ map (NextChunk req) [n..<Suc (n + k)])"
proof (induction k arbitrary: n buf tr)
  case 0
  then show ?case by (subst download_loop.simps) simp
next
  case (Suc k)
  from Suc.prems(1) obtain d where d: "chunks n = Ok (d, False)" by force
  have "\<forall>i<k. \<exists>d. chunks (Suc n + i) = Ok (d, False)"
    using Suc.prems(1) by (metis Suc_less_eq add_Suc_shift)
  moreover have "chunks (Suc n + k) = Ok (d', True)" using Suc.prems(2) by simp
  ultimately have "download_loop chunks req (Suc n) (buf @ d) (tr @ [NextChunk req n])
      = Some (Inr ((buf @ d) @ concat (map (\<lambda>i. chunk_data (chunks i)) [Suc n..<Suc (Suc n + k)])),
              (tr @ [NextChunk req n]) @ map (NextChunk req) [Suc n..<Suc (Suc n + k)])"
    by (rule Suc.IH)
  moreover have "[n..<Suc (n + Suc k)] = n # [Suc n..<Suc (Suc n + k)]"
    by (simp add: upt_conv_Cons)
  ultimately show ?case using d by (subst download_loop.simps) simp
qed

text \<open>A loop that returns has reached a call that raises or reports \<^verbatim>\<open>done\<close>.\<close>

lemma download_loop_stops:
  "download_loop chunks req n buf tr = Some y \<Longrightarrow>
   \<exists>k. (\<forall>i<k. \<exists>d. chunks (n + i) = Ok (d, False)) \<and> terminal (chunks (n + k))"
proof (induction chunks req n buf tr y rule: download_loop.raw_induct [rotated 1, consumes 1])
  case (1 loop chunks req n buf tr y)
  show ?case
  proof (cases "terminal (chunks n)")
    case True
    then have "(\<forall>i<0. \<exists>d. chunks (n + i) = Ok (d, False)) \<and> terminal (chunks (n + 0))" by simp
    then show ?thesis by blast
  next
    case False
    then obtain d where d: "chunks n = Ok (d, False)"
      by (auto simp: terminal_def split: response.splits)
    with 1(2) have "loop chunks req (Suc n) (buf @ d) (tr @ [NextChunk req n]) = Some y" by simp
    from 1(1) [OF this] obtain k where k: "\<forall>i<k. \<exists>d. chunks (Suc n + i) = Ok (d, False)"
      "terminal (chunks (Suc n + k))" by blast
    have "\<forall>i<Suc k. \<exists>d. chunks (n + i) = Ok (d, False)"
    proof (intro allI impI)
      fix i assume "i < Suc k"
      then show "\<exists>d. chunks (n + i) = Ok (d, False)"
        using d k(1) by (cases i) auto
    qed
    moreover have "terminal (chunks (n + Suc k))" using k(2) by simp
    ultimately show ?thesis by blast
  qed
qed

lemma download_loop_fails:
  "fails_at chunks k e \<Longrightarrow> download_loop chunks req 0 [] [] = Some (Inl e, chunk_calls req k)"
  using download_loop_raises [of k chunks 0 e req "[]" "[]"]
  by (simp add: fails_at_def chunk_calls_def)

lemma download_loop_completes:
  "completes_at chunks k \<Longrightarrow>
   download_loop chunks req 0 [] [] = Some (Inr (payload chunks k), chunk_calls req k)"
proof -
  assume "completes_at chunks k"
  then obtain d where "\<forall>i<k. \<exists>d. chunks (0 + i) = Ok (d, False)" "chunks (0 + k) = Ok (d, True)"
    by (auto simp: completes_at_def)
  from download_loop_done [OF this, of req "[]" "[]"] show ?thesis
    by (simp add: payload_def chunk_calls_def)
qed

text \<open>
  The loop returns exactly on the transfers that fail or complete at some call, and
  then with the result and the events that the two lemmas above give.
\<close>

lemma download_loop_returns:
  assumes "download_loop chunks req 0 [] [] = Some y"
  shows "\<exists>k. (\<exists>e. fails_at chunks k e \<and> y = (Inl e, chunk_calls req k))
            \<or> (completes_at chunks k \<and> y = (Inr (payload chunks k), chunk_calls req k))"
proof -
  from download_loop_stops [OF assms]
  obtain k where k: "\<forall>i<k. \<exists>d. chunks i = Ok (d, False)" "terminal (chunks k)" by auto
  show ?thesis
  proof (cases "chunks k")
    case (HttpError e)
    with k have f: "fails_at chunks k e" by (simp add: fails_at_def)
    from download_loop_fails [OF this, of req] assms have "y = (Inl e, chunk_calls req k)" by simp
    with f show ?thesis by blast
  next
    case (Ok p)
    with k have c: "completes_at chunks k"
      by (cases p) (auto simp: completes_at_def terminal_def)
    from download_loop_completes [OF this, of req] assms
    have "y = (Inr (payload chunks k), chunk_calls req k)" by simp
    with c show ?thesis by blast
  qed
qed

lemma chunk_calls_no_disk: "\<forall>ev\<in>set (chunk_calls req k). \<not> is_disk_event ev"
  by (simp add: chunk_calls_def)

lemma chunk_calls_media:
  "filter is_export_call (chunk_calls (GetMedia f) k) = []"
  "filter is_media_call (chunk_calls (ExportMedia f m) k) = []"
  by (simp_all add: chunk_calls_def)

section \<open>The two retrievers\<close>

lemma download_file_fails:
  "fails_at (files_get_media service file_id) k e \<Longrightarrow>
   download_file file_id service =
     Some (None, chunk_calls (GetMedia file_id) k
                 @ [Print (''HTTP error occurred while downloading file: '' @ e)])"
  by (simp add: download_file_def download_loop_fails)

lemma download_file_completes:
  "completes_at (files_get_media service file_id) k \<Longrightarrow>
   download_file file_id service =
     Some (Some (payload (files_get_media service file_id) k), chunk_calls (GetMedia file_id) k)"
  by (simp add: download_file_def download_loop_completes)

lemma export_file_fails:
  "map_of MIME_TYPE_INDEX (last (split_str (CHR ''.'') mime_type)) = Some target \<Longrightarrow>
   fails_at (files_export_media service file_id (MIME_TYPE_WORD_PREFIX @ ''.'' @ target)) k e \<Longrightarrow>
   export_file file_id mime_type service =
     Some (Inr None, chunk_calls (ExportMedia file_id (MIME_TYPE_WORD_PREFIX @ ''.'' @ target)) k
                     @ [Print (''HTTP error occurred while downloading file: '' @ e)])"
  by (simp add: export_file_def Let_def download_loop_fails)

lemma export_file_completes:
  "map_of MIME_TYPE_INDEX (last (split_str (CHR ''.'') mime_type)) = Some target \<Longrightarrow>
   completes_at (files_export_media service file_id (MIME_TYPE_WORD_PREFIX @ ''.'' @ target)) k \<Longrightarrow>
   export_file file_id mime_type service =
     Some (Inr (Some (payload (files_export_media service file_id
                        (MIME_TYPE_WORD_PREFIX @ ''.'' @ target)) k)),
           chunk_calls (ExportMedia file_id (MIME_TYPE_WORD_PREFIX @ ''.'' @ target)) k)"
  by (simp add: export_file_def Let_def download_loop_completes)

lemma export_file_KeyError:
  "map_of MIME_TYPE_INDEX (last (split_str (CHR ''.'') mime_type)) = None \<Longrightarrow>
   export_file file_id mime_type service =
     Some (Inl (KeyError (last (split_str (CHR ''.'') mime_type))), [])"
  by (simp add: export_file_def Let_def)

lemma MIME_TYPE_INDEX_keys:
  "map_of MIME_TYPE_INDEX t = None \<longleftrightarrow>
     t \<noteq> ''document'' \<and> t \<noteq> ''spreadsheet'' \<and> t \<noteq> ''presentation''"
  by (simp add: MIME_TYPE_INDEX_def)

text \<open>The events of a retriever that returns are calls of \<^verbatim>\<open>next_chunk\<close> and prints.\<close>

lemma download_file_events:
  assumes "download_file file_id service = Some (r, tr)"
  shows "(\<forall>ev\<in>set tr. \<not> is_disk_event ev) \<and> filter is_export_call tr = []"
proof -
  from assms obtain y where y: "download_loop (files_get_media service file_id) (GetMedia file_id) 0 [] [] = Some y"
    by (cases "download_loop (files_get_media service file_id) (GetMedia file_id) 0 [] []")
       (auto simp: download_file_def)
  from download_loop_returns [OF y] obtain k where
    "(\<exists>e. y = (Inl e, chunk_calls (GetMedia file_id) k))
     \<or> y = (Inr (payload (files_get_media service file_id) k), chunk_calls (GetMedia file_id) k)"
    by blast
  with assms y show ?thesis
    by (auto simp: download_file_def chunk_calls_def)
qed

lemma export_file_events:
  assumes "export_file file_id mime_type service = Some (r, tr)"
  shows "(\<forall>ev\<in>set tr. \<not> is_disk_event ev) \<and> filter is_media_call tr = []"
proof (cases "map_of MIME_TYPE_INDEX (last (split_str (CHR ''.'') mime_type))")
  case None
  with assms show ?thesis by (simp add: export_file_KeyError)
next
  case (Some target)
  let ?m = "MIME_TYPE_WORD_PREFIX @ ''.'' @ target"
  from assms Some obtain y where
    y: "download_loop (files_export_media service file_id ?m) (ExportMedia file_id ?m) 0 [] [] = Some y"
    by (cases "download_loop (files_export_media service file_id ?m) (ExportMedia file_id ?m) 0 [] []")
       (auto simp: export_file_def Let_def)
  from download_loop_returns [OF y] obtain k where
    "(\<exists>e. y = (Inl e, chunk_calls (ExportMedia file_id ?m) k))
     \<or> y = (Inr (payload (files_export_media service file_id ?m) k),
            chunk_calls (ExportMedia file_id ?m) k)"
    by blast
  with assms y Some show ?thesis
    by (auto simp: export_file_def Let_def chunk_calls_def)
qed

section \<open>Splitting the content type\<close>

lemma split_str_nonempty: "split_str sep s \<noteq> []"
  by (cases s) (auto split: list.splits)

lemma split_str_no_sep: "sep \<notin> set s \<Longrightarrow> split_str sep s = [s]"
  by (induction s) auto

lemma split_str_append:
  "split_str sep (a @ sep # b) = split_str sep a @ split_str sep b"
proof (induction a)
  case Nil
  show ?case by simp
next
  case (Cons c a)
  obtain w ws where w: "split_str sep a = w # ws"
    using split_str_nonempty [of sep a] by (cases "split_str sep a") auto
  with Cons show ?case by simp
qed

text \<open>The last segment is what stands behind the last separator.\<close>

lemma last_split_str:
  "sep \<notin> set seg \<Longrightarrow> last (split_str sep (pre @ sep # seg)) = seg"
  by (simp add: split_str_append split_str_no_sep split_str_nonempty)

section \<open>The main flow, step by step\<close>

lemma get_meta_events:
  "get_meta file_id service = (r, tr) \<Longrightarrow> r \<noteq> Inr None \<Longrightarrow> tr = [Execute (Get file_id)]"
  by (auto simp: get_meta_def split: response.splits option.splits)

lemma main_with_meta:
  "parse_URL url = Inr file_id \<Longrightarrow>
   get_meta file_id service = (Inr (Some (name, mime_type)), tr0) \<Longrightarrow>
   main url service disk fs =
     (case retrieve url file_id name mime_type service of
        None \<Rightarrow> None
      | Some (Inl e, tr) \<Rightarrow>
          Some \<lparr>raised = Some e, files = fs, trace = Execute (Get file_id) # tr\<rparr>
      | Some (Inr (file_media, name'), tr) \<Rightarrow>
          Some (report_and_save file_media name' disk fs (Execute (Get file_id) # tr)))"
  by (frule get_meta_events) (auto simp: main_def split: option.splits sum.splits prod.splits)

lemma retrieve_export:
  "startswith mime_type ''application/vnd.google-apps'' \<Longrightarrow>
   retrieve url file_id name mime_type service =
     (case export_file file_id mime_type service of
        None \<Rightarrow> None
      | Some (Inl e, tr) \<Rightarrow> Some (Inl e, tr)
      | Some (Inr file_media, tr) \<Rightarrow>
          Some (Inr (file_media, name @ get_file_extension mime_type), tr))"
  by (simp add: retrieve_def Let_def split: option.splits sum.splits prod.splits)

lemma retrieve_download:
  "\<not> startswith mime_type ''application/vnd.google-apps'' \<Longrightarrow> parse_URL url = Inr file_id \<Longrightarrow>
   retrieve url file_id name mime_type service =
     (case download_file file_id service of
        None \<Rightarrow> None
      | Some (file_media, tr) \<Rightarrow> Some (Inr (file_media, name), tr))"
  by (simp add: retrieve_def)

lemma retrieve_events:
  assumes "retrieve url file_id name mime_type service = Some (r, tr)"
  shows "\<forall>ev\<in>set tr. \<not> is_disk_event ev"
proof (cases "startswith mime_type ''application/vnd.google-apps''")
  case True
  with assms obtain r' where "export_file file_id mime_type service = Some (r', tr)"
    by (auto simp: retrieve_def Let_def split: option.splits sum.splits)
  then show ?thesis using export_file_events by blast
next
  case False
  show ?thesis
  proof (cases "parse_URL url")
    case (Inl e)
    with False assms show ?thesis by (auto simp: retrieve_def)
  next
    case (Inr f)
    with False assms obtain r' where "download_file f service = Some (r', tr)"
      by (auto simp: retrieve_def split: option.splits)
    then show ?thesis using download_file_events by blast
  qed
qed

section \<open>Transport failures\<close>

text \<open>
  Claim C2. When a call of \<^verbatim>\<open>next_chunk\<close> raises \<^verbatim>\<open>HttpError\<close>, at the first chunk or
  after any number of chunks, \<open>download_file\<close> (and likewise \<open>export_file\<close>) prints the
  error and returns \<open>None\<close>. The main flow then prints its failure message and ends: it
  opens and writes no file, the files on disk are what they were, and the failed call
  is the last request of the run, so nothing is tried again.
\<close>

theorem transport_failure_leaves_no_file:
  "parse_URL url = Inr file_id \<and> get_meta file_id service = (Inr (Some (name, mime_type)), tr0)
   \<longrightarrow>
   (\<not> startswith mime_type ''application/vnd.google-apps''
      \<and> fails_at (files_get_media service file_id) k e
    \<longrightarrow> download_file file_id service =
          Some (None, chunk_calls (GetMedia file_id) k
                      @ [Print (''HTTP error occurred while downloading file: '' @ e)])
        \<and> main url service disk fs =
          Some \<lparr>raised = None, files = fs,
                trace = Execute (Get file_id) # chunk_calls (GetMedia file_id) k
                  @ [Print (''HTTP error occurred while downloading file: '' @ e),
                     Print ''Failed to download file with id {file_id}...'']\<rparr>)
   \<and> (startswith mime_type ''application/vnd.google-apps''
      \<and> map_of MIME_TYPE_INDEX (last (split_str (CHR ''.'') mime_type)) = Some target
      \<and> fails_at (files_export_media service file_id (MIME_TYPE_WORD_PREFIX @ ''.'' @ target)) k e
    \<longrightarrow> export_file file_id mime_type service =
          Some (Inr None,
                chunk_calls (ExportMedia file_id (MIME_TYPE_WORD_PREFIX @ ''.'' @ target)) k
                @ [Print (''HTTP error occurred while downloading file: '' @ e)])
        \<and> main url service disk fs =
          Some \<lparr>raised = None, files = fs,
                trace = Execute (Get file_id)
                  # chunk_calls (ExportMedia file_id (MIME_TYPE_WORD_PREFIX @ ''.'' @ target)) k
                  @ [Print (''HTTP error occurred while downloading file: '' @ e),
                     Print ''Failed to download file with id {file_id}...'']\<rparr>)"
proof (intro impI conjI; elim conjE)
  assume a: "parse_URL url = Inr file_id"
    "get_meta file_id service = (Inr (Some (name, mime_type)), tr0)"
    "\<not> startswith mime_type ''application/vnd.google-apps''"
    "fails_at (files_get_media service file_id) k e"
  show "download_file file_id service =
          Some (None, chunk_calls (GetMedia file_id) k
                      @ [Print (''HTTP error occurred while downloading file: '' @ e)])"
    using a(4) by (rule download_file_fails)
  then show "main url service disk fs =
          Some \<lparr>raised = None, files = fs,
                trace = Execute (Get file_id) # chunk_calls (GetMedia file_id) k
                  @ [Print (''HTTP error occurred while downloading file: '' @ e),
                     Print ''Failed to download file with id {file_id}...'']\<rparr>"
    using a(1-3) by (simp add: main_with_meta retrieve_download report_and_save_def)
next
  assume a: "parse_URL url = Inr file_id"
    "get_meta file_id service = (Inr (Some (name, mime_type)), tr0)"
    "startswith mime_type ''application/vnd.google-apps''"
    "map_of MIME_TYPE_INDEX (last (split_str (CHR ''.'') mime_type)) = Some target"
    "fails_at (files_export_media service file_id (MIME_TYPE_WORD_PREFIX @ ''.'' @ target)) k e"
  show "export_file file_id mime_type service =
          Some (Inr None,
                chunk_calls (ExportMedia file_id (MIME_TYPE_WORD_PREFIX @ ''.'' @ target)) k
                @ [Print (''HTTP error occurred while downloading file: '' @ e)])"
    using a(4,5) by (rule export_file_fails)
  then show "main url service disk fs =
          Some \<lparr>raised = None, files = fs,
                trace = Execute (Get file_id)
                  # chunk_calls (ExportMedia file_id (MIME_TYPE_WORD_PREFIX @ ''.'' @ target)) k
                  @ [Print (''HTTP error occurred while downloading file: '' @ e),
                     Print ''Failed to download file with id {file_id}...'']\<rparr>"
    using a(1-3) by (simp add: main_with_meta retrieve_export report_and_save_def)
qed

lemma sample_meta_pdf1:
  "get_meta ''pdf1'' flaky_service
     = (Inr (Some (''report.pdf'', ''application/pdf'')), [Execute (Get ''pdf1'')])"
  "get_meta ''pdf1'' sample_service
     = (Inr (Some (''report.pdf'', ''application/pdf'')), [Execute (Get ''pdf1'')])"
  by (simp_all add: get_meta_def flaky_service_def sample_service_def sample_meta_def)

lemma sample_meta_doc1:
  "get_meta ''doc1'' flaky_service
     = (Inr (Some (''Notes'', ''application/vnd.google-apps.document'')), [Execute (Get ''doc1'')])"
  "get_meta ''doc1'' sample_service
     = (Inr (Some (''Notes'', ''application/vnd.google-apps.document'')), [Execute (Get ''doc1'')])"
  by (simp_all add: get_meta_def flaky_service_def sample_service_def sample_meta_def)

lemma sample_meta_draw1:
  "get_meta ''draw1'' sample_service
     = (Inr (Some (''Sketch'', ''application/vnd.google-apps.drawing'')), [Execute (Get ''draw1'')])"
  by (simp add: get_meta_def sample_service_def sample_meta_def)

lemma sample_meta_abs1:
  "get_meta ''abs1'' sample_service
     = (Inr (Some (''/tmp/x'', ''text/plain'')), [Execute (Get ''abs1'')])"
  by (simp add: get_meta_def sample_service_def sample_meta_def)

lemma sample_meta_rel1:
  "get_meta ''rel1'' sample_service
     = (Inr (Some (''../up.bin'', ''text/plain'')), [Execute (Get ''rel1'')])"
  by (simp add: get_meta_def sample_service_def sample_meta_def)

lemma sample_urls:
  "parse_URL ''https://drive.google.com/file/d/pdf1/view'' = Inr ''pdf1''"
  "parse_URL ''https://docs.google.com/document/d/doc1/edit'' = Inr ''doc1''"
  "parse_URL ''https://docs.google.com/drawings/d/draw1/edit'' = Inr ''draw1''"
  "parse_URL ''https://drive.google.com/file/d/abs1/view'' = Inr ''abs1''"
  "parse_URL ''https://drive.google.com/file/d/rel1/view'' = Inr ''rel1''"
  by (simp_all add: parse_URL_def match_here_def startswith_def id_char_def)

lemma sample_transfers:
  "fails_at broken_chunks (Suc 0) ''503''"
  "completes_at two_chunks (Suc 0)"
  "payload two_chunks (Suc 0) = [1, 2, 3]"
  by (simp_all add: fails_at_def completes_at_def payload_def broken_chunks_def two_chunks_def)

lemma sample_types:
  "\<not> startswith ''application/pdf'' ''application/vnd.google-apps''"
  "\<not> startswith ''text/plain'' ''application/vnd.google-apps''"
  "startswith ''application/vnd.google-apps.document'' ''application/vnd.google-apps''"
  "startswith ''application/vnd.google-apps.drawing'' ''application/vnd.google-apps''"
  "last (split_str (CHR ''.'') ''application/vnd.google-apps.document'') = ''document''"
  "last (split_str (CHR ''.'') ''application/vnd.google-apps.drawing'') = ''drawing''"
  by (simp_all add: startswith_def)

theorem transport_failure_leaves_no_file_witness:
  "parse_URL ''https://drive.google.com/file/d/pdf1/view'' = Inr ''pdf1''
   \<and> get_meta ''pdf1'' flaky_service
       = (Inr (Some (''report.pdf'', ''application/pdf'')), [Execute (Get ''pdf1'')])
   \<and> \<not> startswith ''application/pdf'' ''application/vnd.google-apps''
   \<and> fails_at (files_get_media flaky_service ''pdf1'') (Suc 0) ''503''
   \<and> download_file ''pdf1'' flaky_service =
       Some (None, [NextChunk (GetMedia ''pdf1'') 0, NextChunk (GetMedia ''pdf1'') 1,
                    Print ''HTTP error occurred while downloading file: 503''])
   \<and> main ''https://drive.google.com/file/d/pdf1/view'' flaky_service (\<lambda>p. WriteCompletes) Map.empty =
       Some \<lparr>raised = None, files = Map.empty,
             trace = [Execute (Get ''pdf1''),
                      NextChunk (GetMedia ''pdf1'') 0, NextChunk (GetMedia ''pdf1'') 1,
                      Print ''HTTP error occurred while downloading file: 503'',
                      Print ''Failed to download file with id {file_id}...'']\<rparr>
   \<and> parse_URL ''https://docs.google.com/document/d/doc1/edit'' = Inr ''doc1''
   \<and> startswith ''application/vnd.google-apps.document'' ''application/vnd.google-apps''
   \<and> map_of MIME_TYPE_INDEX (last (split_str (CHR ''.'') ''application/vnd.google-apps.document''))
       = Some ''wordprocessingml.document''
   \<and> fails_at (files_export_media flaky_service ''doc1''
                 (MIME_TYPE_WORD_PREFIX @ ''.'' @ ''wordprocessingml.document'')) (Suc 0) ''503''
   \<and> main ''https://docs.google.com/document/d/doc1/edit'' flaky_service (\<lambda>p. WriteCompletes) Map.empty =
       Some \<lparr>raised = None, files = Map.empty,
             trace = [Execute (Get ''doc1''),
                      NextChunk (ExportMedia ''doc1''
                        ''application/vnd.openxmlformats-officedocument.wordprocessingml.document'') 0,
                      NextChunk (ExportMedia ''doc1''
                        ''application/vnd.openxmlformats-officedocument.wordprocessingml.document'') 1,
                      Print ''HTTP error occurred while downloading file: 503'',
                      Print ''Failed to download file with id {file_id}...'']\<rparr>"
proof -
  have f: "fails_at (files_get_media flaky_service ''pdf1'') (Suc 0) ''503''"
    "fails_at (files_export_media flaky_service ''doc1''
       (MIME_TYPE_WORD_PREFIX @ ''.'' @ ''wordprocessingml.document'')) (Suc 0) ''503''"
    using sample_transfers(1) by (simp_all add: flaky_service_def)
  have t: "map_of MIME_TYPE_INDEX (last (split_str (CHR ''.'') ''application/vnd.google-apps.document''))
       = Some ''wordprocessingml.document''"
    by (simp add: sample_types MIME_TYPE_INDEX_def)
  have c: "chunk_calls req (Suc 0) = [NextChunk req 0, NextChunk req 1]" for req
    by (simp add: chunk_calls_def upt_rec)
  show ?thesis
    using f t
      transport_failure_leaves_no_file [of "''https://drive.google.com/file/d/pdf1/view''"
        "''pdf1''" flaky_service "''report.pdf''" "''application/pdf''" "[Execute (Get ''pdf1'')]"
        "Suc 0" "''503''" "\<lambda>p. WriteCompletes" Map.empty "''none''"]
      transport_failure_leaves_no_file [of "''https://docs.google.com/document/d/doc1/edit''"
        "''doc1''" flaky_service "''Notes''" "''application/vnd.google-apps.document''"
        "[Execute (Get ''doc1'')]" "Suc 0" "''503''" "\<lambda>p. WriteCompletes" Map.empty
        "''wordprocessingml.document''"]
    by (simp add: sample_urls sample_meta_pdf1 sample_meta_doc1 sample_types c
          MIME_TYPE_WORD_PREFIX_def)
qed

section \<open>Failure of the metadata request\<close>

text \<open>
  Claim C3. When the metadata request raises \<^verbatim>\<open>HttpError\<close>, \<open>get_meta\<close> prints the error
  and returns \<open>None\<close>. The main flow then ends at once, with the \<^verbatim>\<open>TypeError\<close> of
  unpacking \<open>None\<close>: besides the metadata request and the printed line, the run has no
  event, so it makes no download or export request and opens no file, and the files on
  disk are what they were.
\<close>

theorem meta_failure_stops_run:
  "files_get service file_id = HttpError e \<longrightarrow>
     get_meta file_id service =
       (Inr None, [Execute (Get file_id), Print (''HTTP error occurred while fetching meta: '' @ e)])
     \<and> (parse_URL url = Inr file_id \<longrightarrow>
          main url service disk fs =
            Some \<lparr>raised = Some (TypeError ''cannot unpack non-iterable NoneType object''),
                  files = fs,
                  trace = [Execute (Get file_id),
                           Print (''HTTP error occurred while fetching meta: '' @ e)]\<rparr>)"
  by (simp add: get_meta_def main_def)

theorem meta_failure_stops_run_witness:
  "files_get offline_service ''pdf1'' = HttpError ''503''
   \<and> parse_URL ''https://drive.google.com/file/d/pdf1/view'' = Inr ''pdf1''
   \<and> get_meta ''pdf1'' offline_service =
       (Inr None, [Execute (Get ''pdf1''), Print ''HTTP error occurred while fetching meta: 503''])
   \<and> main ''https://drive.google.com/file/d/pdf1/view'' offline_service (\<lambda>p. WriteCompletes) Map.empty =
       Some \<lparr>raised = Some (TypeError ''cannot unpack non-iterable NoneType object''),
             files = Map.empty,
             trace = [Execute (Get ''pdf1''),
                      Print ''HTTP error occurred while fetching meta: 503'']\<rparr>"
proof -
  have h: "files_get offline_service ''pdf1'' = HttpError ''503''"
    by (simp add: offline_service_def)
  show ?thesis
    using h meta_failure_stops_run [of offline_service "''pdf1''" "''503''"
        "''https://drive.google.com/file/d/pdf1/view''" "\<lambda>p. WriteCompletes" Map.empty]
    by (simp add: sample_urls)
qed

section \<open>Content types without an export format\<close>

text \<open>
  Claim C6. A content type that takes the export branch (it starts with
  \<^verbatim>\<open>application/vnd.google-apps\<close>) and whose document type, the segment behind its last
  dot, is none of \<^verbatim>\<open>document\<close>, \<^verbatim>\<open>spreadsheet\<close> and \<^verbatim>\<open>presentation\<close> makes
  \<open>export_file\<close> raise \<^verbatim>\<open>KeyError\<close> before it has made any request. Nothing catches the
  exception: it ends the run, in which only the metadata request has happened; no
  error line is printed and no file is touched.
\<close>

theorem unsupported_document_type_raises_KeyError:
  "parse_URL url = Inr file_id \<and> get_meta file_id service = (Inr (Some (name, mime_type)), tr0)
   \<and> startswith mime_type ''application/vnd.google-apps''
   \<and> document_type = last (split_str (CHR ''.'') mime_type)
   \<and> document_type \<noteq> ''document'' \<and> document_type \<noteq> ''spreadsheet''
   \<and> document_type \<noteq> ''presentation''
   \<longrightarrow>
   export_file file_id mime_type service = Some (Inl (KeyError document_type), [])
   \<and> main url service disk fs =
       Some \<lparr>raised = Some (KeyError document_type), files = fs, trace = [Execute (Get file_id)]\<rparr>
   \<and> (\<forall>pre seg. mime_type = pre @ CHR ''.'' # seg \<and> CHR ''.'' \<notin> set seg \<longrightarrow> document_type = seg)"
proof (intro impI; elim conjE)
  assume a: "parse_URL url = Inr file_id"
    "get_meta file_id service = (Inr (Some (name, mime_type)), tr0)"
    "startswith mime_type ''application/vnd.google-apps''"
    "document_type = last (split_str (CHR ''.'') mime_type)"
    "document_type \<noteq> ''document''" "document_type \<noteq> ''spreadsheet''"
    "document_type \<noteq> ''presentation''"
  then have "map_of MIME_TYPE_INDEX (last (split_str (CHR ''.'') mime_type)) = None"
    by (simp add: MIME_TYPE_INDEX_keys)
  then have e: "export_file file_id mime_type service = Some (Inl (KeyError document_type), [])"
    using a(4) by (simp add: export_file_KeyError)
  then have m: "main url service disk fs =
       Some \<lparr>raised = Some (KeyError document_type), files = fs, trace = [Execute (Get file_id)]\<rparr>"
    using a(1-3) by (simp add: main_with_meta retrieve_export)
  have s: "\<forall>pre seg. mime_type = pre @ CHR ''.'' # seg \<and> CHR ''.'' \<notin> set seg \<longrightarrow> document_type = seg"
    using a(4) by (auto simp: last_split_str)
  from e m s show "export_file file_id mime_type service = Some (Inl (KeyError document_type), [])
   \<and> main url service disk fs =
       Some \<lparr>raised = Some (KeyError document_type), files = fs, trace = [Execute (Get file_id)]\<rparr>
   \<and> (\<forall>pre seg. mime_type = pre @ CHR ''.'' # seg \<and> CHR ''.'' \<notin> set seg \<longrightarrow> document_type = seg)"
    by blast
qed

theorem unsupported_document_type_raises_KeyError_witness:
  "parse_URL ''https://docs.google.com/drawings/d/draw1/edit'' = Inr ''draw1''
   \<and> get_meta ''draw1'' sample_service
       = (Inr (Some (''Sketch'', ''application/vnd.google-apps.drawing'')), [Execute (Get ''draw1'')])
   \<and> startswith ''application/vnd.google-apps.drawing'' ''application/vnd.google-apps''
   \<and> ''drawing'' = last (split_str (CHR ''.'') ''application/vnd.google-apps.drawing'')
   \<and> ''application/vnd.google-apps.drawing'' = ''application/vnd.google-apps'' @ CHR ''.'' # ''drawing''
   \<and> CHR ''.'' \<notin> set ''drawing''
   \<and> export_file ''draw1'' ''application/vnd.google-apps.drawing'' sample_service
       = Some (Inl (KeyError ''drawing''), [])
   \<and> main ''https://docs.google.com/drawings/d/draw1/edit'' sample_service (\<lambda>p. WriteCompletes) Map.empty
       = Some \<lparr>raised = Some (KeyError ''drawing''), files = Map.empty,
               trace = [Execute (Get ''draw1'')]\<rparr>"
  using unsupported_document_type_raises_KeyError
    [of "''https://docs.google.com/drawings/d/draw1/edit''" "''draw1''" sample_service "''Sketch''"
      "''application/vnd.google-apps.drawing''" "[Execute (Get ''draw1'')]" "''drawing''"
      "\<lambda>p. WriteCompletes" Map.empty]
  by (simp add: sample_urls sample_meta_draw1 sample_types)

section \<open>The choice between export and raw download\<close>

lemma sample_download:
  "download_file file_id sample_service =
     Some (Some [1, 2, 3], [NextChunk (GetMedia file_id) 0, NextChunk (GetMedia file_id) 1])"
proof -
  have "completes_at (files_get_media sample_service file_id) (Suc 0)"
    using sample_transfers(2) by (simp add: sample_service_def)
  from download_file_completes [OF this] show ?thesis
    using sample_transfers(3) by (simp add: sample_service_def chunk_calls_def)
qed

lemma sample_export:
  "export_file file_id ''application/vnd.google-apps.document'' sample_service =
     Some (Inr (Some [1, 2, 3]),
       [NextChunk (ExportMedia file_id
          ''application/vnd.openxmlformats-officedocument.wordprocessingml.document'') 0,
        NextChunk (ExportMedia file_id
          ''application/vnd.openxmlformats-officedocument.wordprocessingml.document'') 1])"
proof -
  have t: "map_of MIME_TYPE_INDEX (last (split_str (CHR ''.'') ''application/vnd.google-apps.document''))
       = Some ''wordprocessingml.document''"
    by (simp add: sample_types MIME_TYPE_INDEX_def)
  have "completes_at (files_export_media sample_service file_id
          (MIME_TYPE_WORD_PREFIX @ ''.'' @ ''wordprocessingml.document'')) (Suc 0)"
    using sample_transfers(2) by (simp add: sample_service_def)
  from export_file_completes [OF t this] show ?thesis
    using sample_transfers(3)
    by (simp add: sample_service_def chunk_calls_def MIME_TYPE_WORD_PREFIX_def)
qed

text \<open>
  Claim C4, as the code has it. The test is the prefix alone: \<open>export_file\<close> is called
  exactly for the content types that start with \<^verbatim>\<open>application/vnd.google-apps\<close>, and
  \<open>download_file\<close> exactly for those that do not; a run of the block never makes
  requests of both kinds. The three native document types have the prefix, so they are
  exported; so is every other type with the prefix.
\<close>

theorem strategy_chosen_by_prefix:
  "(startswith mime_type ''application/vnd.google-apps'' \<longrightarrow>
      retrieve url file_id name mime_type service =
        (case export_file file_id mime_type service of
           None \<Rightarrow> None
         | Some (Inl e, tr) \<Rightarrow> Some (Inl e, tr)
         | Some (Inr file_media, tr) \<Rightarrow>
             Some (Inr (file_media, name @ get_file_extension mime_type), tr))
      \<and> (\<forall>r tr. retrieve url file_id name mime_type service = Some (r, tr)
            \<longrightarrow> filter is_media_call tr = []))
   \<and> (\<not> startswith mime_type ''application/vnd.google-apps'' \<and> parse_URL url = Inr file_id \<longrightarrow>
      retrieve url file_id name mime_type service =
        (case download_file file_id service of
           None \<Rightarrow> None
         | Some (file_media, tr) \<Rightarrow> Some (Inr (file_media, name), tr))
      \<and> (\<forall>r tr. retrieve url file_id name mime_type service = Some (r, tr)
            \<longrightarrow> filter is_export_call tr = []))
   \<and> (native_online_document mime_type \<longrightarrow> startswith mime_type ''application/vnd.google-apps'')"
proof (intro conjI impI allI)
  assume p: "startswith mime_type ''application/vnd.google-apps''"
  then show "retrieve url file_id name mime_type service =
        (case export_file file_id mime_type service of
           None \<Rightarrow> None
         | Some (Inl e, tr) \<Rightarrow> Some (Inl e, tr)
         | Some (Inr file_media, tr) \<Rightarrow>
             Some (Inr (file_media, name @ get_file_extension mime_type), tr))"
    by (rule retrieve_export)
  fix r tr assume "retrieve url file_id name mime_type service = Some (r, tr)"
  with p obtain r' where "export_file file_id mime_type service = Some (r', tr)"
    by (auto simp: retrieve_export split: option.splits sum.splits)
  then show "filter is_media_call tr = []" using export_file_events by blast
next
  assume "\<not> startswith mime_type ''application/vnd.google-apps'' \<and> parse_URL url = Inr file_id"
  then have p: "\<not> startswith mime_type ''application/vnd.google-apps''" "parse_URL url = Inr file_id"
    by simp_all
  then show d: "retrieve url file_id name mime_type service =
        (case download_file file_id service of
           None \<Rightarrow> None
         | Some (file_media, tr) \<Rightarrow> Some (Inr (file_media, name), tr))"
    by (rule retrieve_download)
  fix r tr assume "retrieve url file_id name mime_type service = Some (r, tr)"
  with d obtain r' where "download_file file_id service = Some (r', tr)"
    by (auto split: option.splits)
  then show "filter is_export_call tr = []" using download_file_events by blast
next
  assume "native_online_document mime_type"
  then show "startswith mime_type ''application/vnd.google-apps''"
    by (auto simp: native_online_document_def startswith_def)
qed

theorem strategy_chosen_by_prefix_witness:
  "startswith ''application/vnd.google-apps.document'' ''application/vnd.google-apps''
   \<and> native_online_document ''application/vnd.google-apps.document''
   \<and> retrieve ''https://docs.google.com/document/d/doc1/edit'' ''doc1'' ''Notes''
       ''application/vnd.google-apps.document'' sample_service =
       Some (Inr (Some [1, 2, 3], ''Notes.docx''),
         [NextChunk (ExportMedia ''doc1''
            ''application/vnd.openxmlformats-officedocument.wordprocessingml.document'') 0,
          NextChunk (ExportMedia ''doc1''
            ''application/vnd.openxmlformats-officedocument.wordprocessingml.document'') 1])
   \<and> \<not> startswith ''application/pdf'' ''application/vnd.google-apps''
   \<and> parse_URL ''https://drive.google.com/file/d/pdf1/view'' = Inr ''pdf1''
   \<and> retrieve ''https://drive.google.com/file/d/pdf1/view'' ''pdf1'' ''report.pdf''
       ''application/pdf'' sample_service =
       Some (Inr (Some [1, 2, 3], ''report.pdf''),
         [NextChunk (GetMedia ''pdf1'') 0, NextChunk (GetMedia ''pdf1'') 1])"
  using strategy_chosen_by_prefix [of "''application/vnd.google-apps.document''"
      "''https://docs.google.com/document/d/doc1/edit''" "''doc1''" "''Notes''" sample_service]
    strategy_chosen_by_prefix [of "''application/pdf''"
      "''https://drive.google.com/file/d/pdf1/view''" "''pdf1''" "''report.pdf''" sample_service]
  by (simp add: sample_urls sample_types sample_download sample_export
        native_online_document_def get_file_extension_def)

text \<open>
  Claim C4 as stated fails on a content type with the prefix that is no document,
  spreadsheet or presentation, such as a drawing: the block calls \<open>export_file\<close>, which
  raises \<^verbatim>\<open>KeyError\<close> without a request, and the run ends with that exception.
  \<open>download_file\<close>, which would have fetched the three bytes, is not called.
\<close>

theorem strategy_by_document_type_counterexample:
  "\<not> native_online_document ''application/vnd.google-apps.drawing''
   \<and> retrieve ''https://docs.google.com/drawings/d/draw1/edit'' ''draw1'' ''Sketch''
       ''application/vnd.google-apps.drawing'' sample_service
       = Some (Inl (KeyError ''drawing''), [])
   \<and> export_file ''draw1'' ''application/vnd.google-apps.drawing'' sample_service
       = Some (Inl (KeyError ''drawing''), [])
   \<and> download_file ''draw1'' sample_service
       = Some (Some [1, 2, 3], [NextChunk (GetMedia ''draw1'') 0, NextChunk (GetMedia ''draw1'') 1])
   \<and> main ''https://docs.google.com/drawings/d/draw1/edit'' sample_service (\<lambda>p. WriteCompletes) Map.empty
       = Some \<lparr>raised = Some (KeyError ''drawing''), files = Map.empty,
               trace = [Execute (Get ''draw1'')]\<rparr>"
proof -
  have e: "export_file ''draw1'' ''application/vnd.google-apps.drawing'' sample_service
       = Some (Inl (KeyError ''drawing''), [])"
    using export_file_KeyError [of "''application/vnd.google-apps.drawing''" "''draw1''" sample_service]
    by (simp add: sample_types MIME_TYPE_INDEX_def)
  then have r: "retrieve ''https://docs.google.com/drawings/d/draw1/edit'' ''draw1'' ''Sketch''
       ''application/vnd.google-apps.drawing'' sample_service
       = Some (Inl (KeyError ''drawing''), [])"
    by (simp add: retrieve_export sample_types)
  then have "main ''https://docs.google.com/drawings/d/draw1/edit'' sample_service (\<lambda>p. WriteCompletes) Map.empty
       = Some \<lparr>raised = Some (KeyError ''drawing''), files = Map.empty,
               trace = [Execute (Get ''draw1'')]\<rparr>"
    using main_with_meta [OF sample_urls(3) sample_meta_draw1] by simp
  with e r show ?thesis
    by (simp add: sample_download native_online_document_def)
qed

section \<open>The messages of the main flow\<close>

lemma parsed_id_not_placeholder:
  assumes "parse_URL url = Inr file_id"
  shows "''Failed to download file with id {file_id}...''
           \<noteq> ''Failed to download file with id '' @ file_id @ ''...''"
proof
  assume eq: "''Failed to download file with id {file_id}...''
           = ''Failed to download file with id '' @ file_id @ ''...''"
  from assms have "re_search url = Some file_id"
    by (simp add: parse_URL_def split: option.splits)
  then have "leftmost_token url file_id" by (simp add: re_search_Some)
  then obtain c cs where f: "file_id = c # cs" "id_char c"
    by (cases file_id) (auto simp: leftmost_token_def)
  with eq have "c = CHR ''{''" by simp
  with f(2) show False by (simp add: id_char_def)
qed

text \<open>
  Claim C10. On the failure path, where the retriever has returned \<open>None\<close>, the last line
  the run prints is the text \<^verbatim>\<open>Failed to download file with id {file_id}...\<close>, braces
  and all, whatever the URL and the identifier are; the line with the identifier in
  place of \<^verbatim>\<open>{file_id}\<close> is a different one for every identifier that \<open>parse_URL\<close> can
  return.
\<close>

theorem failure_message_is_literal:
  "parse_URL url = Inr file_id \<and> get_meta file_id service = (Inr (Some (name, mime_type)), tr0)
   \<and> retrieve url file_id name mime_type service = Some (Inr (None, name'), tr)
   \<longrightarrow>
   main url service disk fs =
     Some \<lparr>raised = None, files = fs,
           trace = Execute (Get file_id) # tr
             @ [Print ''Failed to download file with id {file_id}...'']\<rparr>
   \<and> ''Failed to download file with id {file_id}...''
       \<noteq> ''Failed to download file with id '' @ file_id @ ''...''"
proof (intro impI; elim conjE)
  assume a: "parse_URL url = Inr file_id"
    "get_meta file_id service = (Inr (Some (name, mime_type)), tr0)"
    "retrieve url file_id name mime_type service = Some (Inr (None, name'), tr)"
  have "main url service disk fs =
     Some \<lparr>raised = None, files = fs,
           trace = Execute (Get file_id) # tr
             @ [Print ''Failed to download file with id {file_id}...'']\<rparr>"
    using a by (simp add: main_with_meta report_and_save_def)
  with parsed_id_not_placeholder [OF a(1)]
  show "main url service disk fs =
     Some \<lparr>raised = None, files = fs,
           trace = Execute (Get file_id) # tr
             @ [Print ''Failed to download file with id {file_id}...'']\<rparr>
   \<and> ''Failed to download file with id {file_id}...''
       \<noteq> ''Failed to download file with id '' @ file_id @ ''...''"
    by blast
qed

lemma flaky_download:
  "download_file file_id flaky_service =
     Some (None, [NextChunk (GetMedia file_id) 0, NextChunk (GetMedia file_id) 1,
                  Print ''HTTP error occurred while downloading file: 503''])"
proof -
  have "fails_at (files_get_media flaky_service file_id) (Suc 0) ''503''"
    using sample_transfers(1) by (simp add: flaky_service_def)
  from download_file_fails [OF this] show ?thesis
    by (simp add: chunk_calls_def)
qed

theorem failure_message_is_literal_witness:
  "parse_URL ''https://drive.google.com/file/d/pdf1/view'' = Inr ''pdf1''
   \<and> get_meta ''pdf1'' flaky_service
       = (Inr (Some (''report.pdf'', ''application/pdf'')), [Execute (Get ''pdf1'')])
   \<and> retrieve ''https://drive.google.com/file/d/pdf1/view'' ''pdf1'' ''report.pdf''
       ''application/pdf'' flaky_service =
       Some (Inr (None, ''report.pdf''),
         [NextChunk (GetMedia ''pdf1'') 0, NextChunk (GetMedia ''pdf1'') 1,
          Print ''HTTP error occurred while downloading file: 503''])
   \<and> main ''https://drive.google.com/file/d/pdf1/view'' flaky_service (\<lambda>p. WriteCompletes) Map.empty =
       Some \<lparr>raised = None, files = Map.empty,
             trace = [Execute (Get ''pdf1''),
                      NextChunk (GetMedia ''pdf1'') 0, NextChunk (GetMedia ''pdf1'') 1,
                      Print ''HTTP error occurred while downloading file: 503'',
                      Print ''Failed to download file with id {file_id}...'']\<rparr>"
proof -
  have r: "retrieve ''https://drive.google.com/file/d/pdf1/view'' ''pdf1'' ''report.pdf''
       ''application/pdf'' flaky_service =
       Some (Inr (None, ''report.pdf''),
         [NextChunk (GetMedia ''pdf1'') 0, NextChunk (GetMedia ''pdf1'') 1,
          Print ''HTTP error occurred while downloading file: 503''])"
    by (simp add: retrieve_download sample_types sample_urls flaky_download)
  show ?thesis
    using r failure_message_is_literal [of "''https://drive.google.com/file/d/pdf1/view''"
        "''pdf1''" flaky_service "''report.pdf''" "''application/pdf''" "[Execute (Get ''pdf1'')]"
        "''report.pdf''"
        "[NextChunk (GetMedia ''pdf1'') 0, NextChunk (GetMedia ''pdf1'') 1,
          Print ''HTTP error occurred while downloading file: 503'']"
        "\<lambda>p. WriteCompletes" Map.empty]
    by (simp add: sample_urls sample_meta_pdf1)
qed

lemma save_file_events:
  "\<exists>rest. snd (snd (save_file data filename disk fs)) = OpenWb (os_path_join OUTPUT_DIR filename) # rest"
  by (cases "disk (os_path_join OUTPUT_DIR filename)") (simp_all add: save_file_def Let_def)

lemma save_file_raises:
  "disk (os_path_join OUTPUT_DIR filename) \<noteq> WriteCompletes \<Longrightarrow>
   fst (save_file data filename disk fs) = Some (OSError (os_path_join OUTPUT_DIR filename))"
  by (cases "disk (os_path_join OUTPUT_DIR filename)") (simp_all add: save_file_def Let_def)

lemma report_and_save_Some:
  "report_and_save (Some data) filename disk fs tr =
     \<lparr>raised = fst (save_file data filename disk fs),
      files = fst (snd (save_file data filename disk fs)),
      trace = tr @ [Print (''Downloaded '' @ filename @ ''!'')]
                @ snd (snd (save_file data filename disk fs))\<rparr>"
  by (simp add: report_and_save_def split: prod.splits)

text \<open>
  Claim C9. On the success path, where the retriever has returned a buffer, the run
  prints \<^verbatim>\<open>Downloaded <name>!\<close> and only then opens the file: the line stands directly
  before the opening of the file in the trace, and nothing before it touches the disk.
  So the line is printed also in the runs in which opening or writing the file fails
  and the run ends with that error.
\<close>

theorem confirmation_precedes_write:
  "parse_URL url = Inr file_id \<and> get_meta file_id service = (Inr (Some (name, mime_type)), tr0)
   \<and> retrieve url file_id name mime_type service = Some (Inr (Some data, name'), tr)
   \<longrightarrow>
   (\<exists>r rest. main url service disk fs = Some r
      \<and> trace r = Execute (Get file_id) # tr
          @ Print (''Downloaded '' @ name' @ ''!'') # OpenWb (os_path_join OUTPUT_DIR name') # rest
      \<and> (\<forall>ev\<in>set (Execute (Get file_id) # tr). \<not> is_disk_event ev)
      \<and> (disk (os_path_join OUTPUT_DIR name') \<noteq> WriteCompletes \<longrightarrow>
           raised r = Some (OSError (os_path_join OUTPUT_DIR name'))))"
proof (intro impI; elim conjE)
  assume a: "parse_URL url = Inr file_id"
    "get_meta file_id service = (Inr (Some (name, mime_type)), tr0)"
    "retrieve url file_id name mime_type service = Some (Inr (Some data, name'), tr)"
  let ?path = "os_path_join OUTPUT_DIR name'"
  let ?r = "report_and_save (Some data) name' disk fs (Execute (Get file_id) # tr)"
  obtain rest where rest: "snd (snd (save_file data name' disk fs)) = OpenWb ?path # rest"
    using save_file_events by blast
  have m: "main url service disk fs = Some ?r"
    using a by (simp add: main_with_meta)
  have t: "trace ?r = Execute (Get file_id) # tr
          @ Print (''Downloaded '' @ name' @ ''!'') # OpenWb ?path # rest"
    using rest by (simp add: report_and_save_Some)
  have d: "\<forall>ev\<in>set (Execute (Get file_id) # tr). \<not> is_disk_event ev"
    using retrieve_events [OF a(3)] by simp
  have e: "disk ?path \<noteq> WriteCompletes \<longrightarrow> raised ?r = Some (OSError ?path)"
    using save_file_raises [of disk name' data fs]
    by (simp add: report_and_save_Some)
  from m t d e show "\<exists>r rest. main url service disk fs = Some r
      \<and> trace r = Execute (Get file_id) # tr
          @ Print (''Downloaded '' @ name' @ ''!'') # OpenWb (os_path_join OUTPUT_DIR name') # rest
      \<and> (\<forall>ev\<in>set (Execute (Get file_id) # tr). \<not> is_disk_event ev)
      \<and> (disk (os_path_join OUTPUT_DIR name') \<noteq> WriteCompletes \<longrightarrow>
           raised r = Some (OSError (os_path_join OUTPUT_DIR name')))"
    by blast
qed

lemma sample_retrieve_pdf1:
  "retrieve ''https://drive.google.com/file/d/pdf1/view'' ''pdf1'' ''report.pdf''
       ''application/pdf'' sample_service =
       Some (Inr (Some [1, 2, 3], ''report.pdf''),
         [NextChunk (GetMedia ''pdf1'') 0, NextChunk (GetMedia ''pdf1'') 1])"
  by (simp add: retrieve_download sample_types sample_urls sample_download)

lemma sample_paths:
  "os_path_join OUTPUT_DIR ''report.pdf'' = ''output/report.pdf''"
  "os_path_join OUTPUT_DIR ''Notes.docx'' = ''output/Notes.docx''"
  "os_path_join OUTPUT_DIR ''/tmp/x'' = ''/tmp/x''"
  "os_path_join OUTPUT_DIR ''../up.bin'' = ''output/../up.bin''"
  by (simp_all add: os_path_join_def OUTPUT_DIR_def startswith_def)

theorem confirmation_precedes_write_witness:
  "parse_URL ''https://drive.google.com/file/d/pdf1/view'' = Inr ''pdf1''
   \<and> get_meta ''pdf1'' sample_service
       = (Inr (Some (''report.pdf'', ''application/pdf'')), [Execute (Get ''pdf1'')])
   \<and> retrieve ''https://drive.google.com/file/d/pdf1/view'' ''pdf1'' ''report.pdf''
       ''application/pdf'' sample_service =
       Some (Inr (Some [1, 2, 3], ''report.pdf''),
         [NextChunk (GetMedia ''pdf1'') 0, NextChunk (GetMedia ''pdf1'') 1])
   \<and> (\<lambda>p. OpenFails) (os_path_join OUTPUT_DIR ''report.pdf'') \<noteq> WriteCompletes
   \<and> (\<exists>r rest. main ''https://drive.google.com/file/d/pdf1/view'' sample_service (\<lambda>p. OpenFails) Map.empty
         = Some r
       \<and> trace r = [Execute (Get ''pdf1''),
                    NextChunk (GetMedia ''pdf1'') 0, NextChunk (GetMedia ''pdf1'') 1,
                    Print ''Downloaded report.pdf!'', OpenWb ''output/report.pdf''] @ rest
       \<and> raised r = Some (OSError ''output/report.pdf''))"
  using confirmation_precedes_write [of "''https://drive.google.com/file/d/pdf1/view''"
      "''pdf1''" sample_service "''report.pdf''" "''application/pdf''" "[Execute (Get ''pdf1'')]"
      "[1, 2, 3]" "''report.pdf''"
      "[NextChunk (GetMedia ''pdf1'') 0, NextChunk (GetMedia ''pdf1'') 1]"
      "\<lambda>p. OpenFails" Map.empty]
  by (simp add: sample_urls sample_meta_pdf1 sample_retrieve_pdf1 sample_paths)

section \<open>The file written on success\<close>

lemma sample_streams:
  "files_get_media sample_service file_id = two_chunks"
  "files_export_media sample_service file_id mime = two_chunks"
  by (simp_all add: sample_service_def)

lemma chunk_calls_not_open: "filter is_open (chunk_calls req k) = []"
  by (simp add: chunk_calls_def)

text \<open>
  What the last step does with a buffer: one file is opened, at the joined path; no
  other path changes; and when the write completes the file holds the buffer.
\<close>

lemma report_and_save_writes:
  assumes "filter is_open tr = []" and "path = os_path_join OUTPUT_DIR filename"
    and "r = report_and_save (Some data) filename disk fs tr"
  shows "filter is_open (trace r) = [OpenWb path]"
    and "\<forall>q. q \<noteq> path \<longrightarrow> files r q = fs q"
    and "disk path = WriteCompletes \<longrightarrow>
           r = \<lparr>raised = None, files = fs(path \<mapsto> data),
                trace = tr @ [Print (''Downloaded '' @ filename @ ''!''), OpenWb path, Write path data]\<rparr>"
  using assms
  by (cases "disk (os_path_join OUTPUT_DIR filename)";
      simp add: report_and_save_def save_file_def Let_def)+

lemma os_path_join_OUTPUT_DIR:
  "os_path_join OUTPUT_DIR filename =
     (if startswith filename ''/'' then filename else ''output/'' @ filename)"
  by (simp add: os_path_join_def OUTPUT_DIR_def)

lemma report_and_save_disk_events:
  assumes "\<forall>ev\<in>set tr. \<not> is_disk_event ev" and "path = os_path_join OUTPUT_DIR filename"
    and "r = report_and_save (Some data) filename disk fs tr"
  shows "\<forall>ev\<in>set (trace r). is_disk_event ev \<longrightarrow> event_path ev = Some path"
  using assms
  by (cases "disk (os_path_join OUTPUT_DIR filename)")
     (auto simp: report_and_save_def save_file_def Let_def)

text \<open>
  Claim C7, as the code has it. From the return of \<^verbatim>\<open>init()\<close> on, a run with a raw
  download that completes opens exactly one path for writing, and every disk event of
  the run is about that path: the string \<^verbatim>\<open>os.path.join("output/", name)\<close> for the
  display name of the metadata, with no extension appended. The string is \<^verbatim>\<open>output/\<close>
  followed by the name when the name does not begin with a slash, and the name itself
  when it does; that the path lies inside the output directory is not asserted, and a
  name that begins with a slash or has \<^verbatim>\<open>..\<close> components leads out of it. When the write
  completes, the bytes written to the path are exactly the payload, the bytes of all
  chunks in order, and they replace whatever was kept under the path.
\<close>

theorem raw_download_written_verbatim:
  "parse_URL url = Inr file_id \<and> get_meta file_id service = (Inr (Some (name, mime_type)), tr0)
   \<and> \<not> startswith mime_type ''application/vnd.google-apps''
   \<and> completes_at (files_get_media service file_id) k
   \<and> data = payload (files_get_media service file_id) k
   \<and> path = os_path_join OUTPUT_DIR name
   \<longrightarrow>
   download_file file_id service = Some (Some data, chunk_calls (GetMedia file_id) k)
   \<and> path = (if startswith name ''/'' then name else ''output/'' @ name)
   \<and> (\<exists>r. main url service disk fs = Some r
        \<and> filter is_open (trace r) = [OpenWb path]
        \<and> (\<forall>ev\<in>set (trace r). is_disk_event ev \<longrightarrow> event_path ev = Some path)
        \<and> (disk path = WriteCompletes \<longrightarrow>
             r = \<lparr>raised = None, files = fs(path \<mapsto> data),
                  trace = (Execute (Get file_id) # chunk_calls (GetMedia file_id) k)
                    @ [Print (''Downloaded '' @ name @ ''!''), OpenWb path, Write path data]\<rparr>))"
proof (intro impI; elim conjE)
  assume a: "parse_URL url = Inr file_id"
    "get_meta file_id service = (Inr (Some (name, mime_type)), tr0)"
    "\<not> startswith mime_type ''application/vnd.google-apps''"
    "completes_at (files_get_media service file_id) k"
    "data = payload (files_get_media service file_id) k"
    "path = os_path_join OUTPUT_DIR name"
  let ?tr = "Execute (Get file_id) # chunk_calls (GetMedia file_id) k"
  let ?r = "report_and_save (Some data) name disk fs ?tr"
  have d: "download_file file_id service = Some (Some data, chunk_calls (GetMedia file_id) k)"
    using a(4,5) by (simp add: download_file_completes)
  have p: "path = (if startswith name ''/'' then name else ''output/'' @ name)"
    using a(6) by (simp only: os_path_join_OUTPUT_DIR)
  have m: "main url service disk fs = Some ?r"
    using a(1-3) d by (simp add: main_with_meta retrieve_download)
  have n: "filter is_open ?tr = []" by (simp add: chunk_calls_not_open)
  have q: "\<forall>ev\<in>set ?tr. \<not> is_disk_event ev" using chunk_calls_no_disk by simp
  note w = report_and_save_writes(1,3) [where data = data and disk = disk and fs = fs, OF n a(6) refl]
  note v = report_and_save_disk_events [where data = data and disk = disk and fs = fs, OF q a(6) refl]
  from d p m w v show "download_file file_id service = Some (Some data, chunk_calls (GetMedia file_id) k)
   \<and> path = (if startswith name ''/'' then name else ''output/'' @ name)
   \<and> (\<exists>r. main url service disk fs = Some r
        \<and> filter is_open (trace r) = [OpenWb path]
        \<and> (\<forall>ev\<in>set (trace r). is_disk_event ev \<longrightarrow> event_path ev = Some path)
        \<and> (disk path = WriteCompletes \<longrightarrow>
             r = \<lparr>raised = None, files = fs(path \<mapsto> data),
                  trace = (Execute (Get file_id) # chunk_calls (GetMedia file_id) k)
                    @ [Print (''Downloaded '' @ name @ ''!''), OpenWb path, Write path data]\<rparr>))"
    by blast
qed

theorem raw_download_written_verbatim_witness:
  "parse_URL ''https://drive.google.com/file/d/pdf1/view'' = Inr ''pdf1''
   \<and> get_meta ''pdf1'' sample_service
       = (Inr (Some (''report.pdf'', ''application/pdf'')), [Execute (Get ''pdf1'')])
   \<and> \<not> startswith ''application/pdf'' ''application/vnd.google-apps''
   \<and> completes_at (files_get_media sample_service ''pdf1'') (Suc 0)
   \<and> [1, 2, 3] = payload (files_get_media sample_service ''pdf1'') (Suc 0)
   \<and> ''output/report.pdf'' = os_path_join OUTPUT_DIR ''report.pdf''
   \<and> main ''https://drive.google.com/file/d/pdf1/view'' sample_service (\<lambda>p. WriteCompletes)
        [''output/report.pdf'' \<mapsto> [9, 9]]
       = Some \<lparr>raised = None,
               files = [''output/report.pdf'' \<mapsto> [9, 9], ''output/report.pdf'' \<mapsto> [1, 2, 3]],
               trace = [Execute (Get ''pdf1''),
                        NextChunk (GetMedia ''pdf1'') 0, NextChunk (GetMedia ''pdf1'') 1,
                        Print ''Downloaded report.pdf!'',
                        OpenWb ''output/report.pdf'', Write ''output/report.pdf'' [1, 2, 3]]\<rparr>
   \<and> parse_URL ''https://drive.google.com/file/d/rel1/view'' = Inr ''rel1''
   \<and> get_meta ''rel1'' sample_service
       = (Inr (Some (''../up.bin'', ''text/plain'')), [Execute (Get ''rel1'')])
   \<and> ''output/../up.bin'' = os_path_join OUTPUT_DIR ''../up.bin''
   \<and> main ''https://drive.google.com/file/d/rel1/view'' sample_service (\<lambda>p. WriteCompletes) Map.empty
       = Some \<lparr>raised = None, files = [''output/../up.bin'' \<mapsto> [1, 2, 3]],
               trace = [Execute (Get ''rel1''),
                        NextChunk (GetMedia ''rel1'') 0, NextChunk (GetMedia ''rel1'') 1,
                        Print ''Downloaded ../up.bin!'',
                        OpenWb ''output/../up.bin'', Write ''output/../up.bin'' [1, 2, 3]]\<rparr>"
proof -
  have h: "parse_URL ''https://drive.google.com/file/d/pdf1/view'' = Inr ''pdf1''
     \<and> get_meta ''pdf1'' sample_service
         = (Inr (Some (''report.pdf'', ''application/pdf'')), [Execute (Get ''pdf1'')])
     \<and> \<not> startswith ''application/pdf'' ''application/vnd.google-apps''
     \<and> completes_at (files_get_media sample_service ''pdf1'') (Suc 0)
     \<and> [1, 2, 3] = payload (files_get_media sample_service ''pdf1'') (Suc 0)
     \<and> ''output/report.pdf'' = os_path_join OUTPUT_DIR ''report.pdf''"
    using sample_transfers(2,3)
    by (simp add: sample_urls sample_meta_pdf1 sample_types sample_paths sample_streams)
  have g: "parse_URL ''https://drive.google.com/file/d/rel1/view'' = Inr ''rel1''
     \<and> get_meta ''rel1'' sample_service
         = (Inr (Some (''../up.bin'', ''text/plain'')), [Execute (Get ''rel1'')])
     \<and> \<not> startswith ''text/plain'' ''application/vnd.google-apps''
     \<and> completes_at (files_get_media sample_service ''rel1'') (Suc 0)
     \<and> [1, 2, 3] = payload (files_get_media sample_service ''rel1'') (Suc 0)
     \<and> ''output/../up.bin'' = os_path_join OUTPUT_DIR ''../up.bin''"
    using sample_transfers(2,3)
    by (simp add: sample_urls sample_meta_rel1 sample_types sample_paths sample_streams)
  have k: "chunk_calls req (Suc 0) = [NextChunk req 0, NextChunk req 1]" for req
    by (simp add: chunk_calls_def upt_rec)
  from raw_download_written_verbatim [THEN mp, OF h, of "\<lambda>p. WriteCompletes"
      "[''output/report.pdf'' \<mapsto> [9, 9]]"]
  obtain r where r: "main ''https://drive.google.com/file/d/pdf1/view'' sample_service
        (\<lambda>p. WriteCompletes) [''output/report.pdf'' \<mapsto> [9, 9]] = Some r"
    "r = \<lparr>raised = None,
          files = [''output/report.pdf'' \<mapsto> [9, 9], ''output/report.pdf'' \<mapsto> [1, 2, 3]],
          trace = (Execute (Get ''pdf1'') # chunk_calls (GetMedia ''pdf1'') (Suc 0))
            @ [Print (''Downloaded '' @ ''report.pdf'' @ ''!''), OpenWb ''output/report.pdf'',
               Write ''output/report.pdf'' [1, 2, 3]]\<rparr>"
    by blast
  have one: "main ''https://drive.google.com/file/d/pdf1/view'' sample_service (\<lambda>p. WriteCompletes)
        [''output/report.pdf'' \<mapsto> [9, 9]]
       = Some \<lparr>raised = None,
               files = [''output/report.pdf'' \<mapsto> [9, 9], ''output/report.pdf'' \<mapsto> [1, 2, 3]],
               trace = [Execute (Get ''pdf1''),
                        NextChunk (GetMedia ''pdf1'') 0, NextChunk (GetMedia ''pdf1'') 1,
                        Print ''Downloaded report.pdf!'',
                        OpenWb ''output/report.pdf'', Write ''output/report.pdf'' [1, 2, 3]]\<rparr>"
    unfolding r by (simp add: k)
  from raw_download_written_verbatim [THEN mp, OF g, of "\<lambda>p. WriteCompletes" Map.empty]
  obtain s where s: "main ''https://drive.google.com/file/d/rel1/view'' sample_service
        (\<lambda>p. WriteCompletes) Map.empty = Some s"
    "s = \<lparr>raised = None, files = [''output/../up.bin'' \<mapsto> [1, 2, 3]],
          trace = (Execute (Get ''rel1'') # chunk_calls (GetMedia ''rel1'') (Suc 0))
            @ [Print (''Downloaded '' @ ''../up.bin'' @ ''!''), OpenWb ''output/../up.bin'',
               Write ''output/../up.bin'' [1, 2, 3]]\<rparr>"
    by blast
  have two: "main ''https://drive.google.com/file/d/rel1/view'' sample_service (\<lambda>p. WriteCompletes) Map.empty
       = Some \<lparr>raised = None, files = [''output/../up.bin'' \<mapsto> [1, 2, 3]],
               trace = [Execute (Get ''rel1''),
                        NextChunk (GetMedia ''rel1'') 0, NextChunk (GetMedia ''rel1'') 1,
                        Print ''Downloaded ../up.bin!'',
                        OpenWb ''output/../up.bin'', Write ''output/../up.bin'' [1, 2, 3]]\<rparr>"
    unfolding s by (simp add: k)
  from h g one two show ?thesis by blast
qed

text \<open>
  Claim C7 as stated fails for a display name that begins with a slash:
  \<^verbatim>\<open>os.path.join\<close> drops \<^verbatim>\<open>output/\<close> before an absolute name, and the file is written at
  the name itself, outside the output directory.
\<close>

theorem raw_download_outside_output_dir_counterexample:
  "get_meta ''abs1'' sample_service
     = (Inr (Some (''/tmp/x'', ''text/plain'')), [Execute (Get ''abs1'')])
   \<and> main ''https://drive.google.com/file/d/abs1/view'' sample_service (\<lambda>p. WriteCompletes) Map.empty
       = Some \<lparr>raised = None, files = [''/tmp/x'' \<mapsto> [1, 2, 3]],
               trace = [Execute (Get ''abs1''),
                        NextChunk (GetMedia ''abs1'') 0, NextChunk (GetMedia ''abs1'') 1,
                        Print ''Downloaded /tmp/x!'', OpenWb ''/tmp/x'', Write ''/tmp/x'' [1, 2, 3]]\<rparr>
   \<and> \<not> startswith ''/tmp/x'' OUTPUT_DIR"
proof -
  have "retrieve ''https://drive.google.com/file/d/abs1/view'' ''abs1'' ''/tmp/x''
       ''text/plain'' sample_service =
       Some (Inr (Some [1, 2, 3], ''/tmp/x''),
         [NextChunk (GetMedia ''abs1'') 0, NextChunk (GetMedia ''abs1'') 1])"
    by (simp add: retrieve_download sample_types sample_urls sample_download)
  then have "main ''https://drive.google.com/file/d/abs1/view'' sample_service (\<lambda>p. WriteCompletes) Map.empty
       = Some \<lparr>raised = None, files = [''/tmp/x'' \<mapsto> [1, 2, 3]],
               trace = [Execute (Get ''abs1''),
                        NextChunk (GetMedia ''abs1'') 0, NextChunk (GetMedia ''abs1'') 1,
                        Print ''Downloaded /tmp/x!'', OpenWb ''/tmp/x'', Write ''/tmp/x'' [1, 2, 3]]\<rparr>"
    using main_with_meta [OF sample_urls(4) sample_meta_abs1]
    by (simp add: report_and_save_def save_file_def Let_def sample_paths)
  then show ?thesis
    by (simp add: sample_meta_abs1 startswith_def OUTPUT_DIR_def)
qed

text \<open>
  Claim C8. After an export that completes, the file that the run opens and writes is
  named by the display name followed by the extension that \<open>get_file_extension\<close> gives
  for the content type: \<open>save_file\<close> gets that name, and the one file opened is the
  join of the output directory with it. When the write completes, the file holds the
  exported bytes.
\<close>

theorem export_written_under_name_with_extension:
  "parse_URL url = Inr file_id \<and> get_meta file_id service = (Inr (Some (name, mime_type)), tr0)
   \<and> startswith mime_type ''application/vnd.google-apps''
   \<and> map_of MIME_TYPE_INDEX (last (split_str (CHR ''.'') mime_type)) = Some target
   \<and> req = ExportMedia file_id (MIME_TYPE_WORD_PREFIX @ ''.'' @ target)
   \<and> completes_at (files_export_media service file_id (MIME_TYPE_WORD_PREFIX @ ''.'' @ target)) k
   \<and> data = payload (files_export_media service file_id (MIME_TYPE_WORD_PREFIX @ ''.'' @ target)) k
   \<and> filename = name @ get_file_extension mime_type
   \<and> path = os_path_join OUTPUT_DIR filename
   \<longrightarrow>
   export_file file_id mime_type service = Some (Inr (Some data), chunk_calls req k)
   \<and> (\<exists>r. main url service disk fs = Some r
        \<and> filter is_open (trace r) = [OpenWb path]
        \<and> (\<forall>q. q \<noteq> path \<longrightarrow> files r q = fs q)
        \<and> (disk path = WriteCompletes \<longrightarrow>
             r = \<lparr>raised = None, files = fs(path \<mapsto> data),
                  trace = (Execute (Get file_id) # chunk_calls req k)
                    @ [Print (''Downloaded '' @ filename @ ''!''), OpenWb path, Write path data]\<rparr>))"
proof (intro impI; elim conjE)
  assume a: "parse_URL url = Inr file_id"
    "get_meta file_id service = (Inr (Some (name, mime_type)), tr0)"
    "startswith mime_type ''application/vnd.google-apps''"
    "map_of MIME_TYPE_INDEX (last (split_str (CHR ''.'') mime_type)) = Some target"
    "req = ExportMedia file_id (MIME_TYPE_WORD_PREFIX @ ''.'' @ target)"
    "completes_at (files_export_media service file_id (MIME_TYPE_WORD_PREFIX @ ''.'' @ target)) k"
    "data = payload (files_export_media service file_id (MIME_TYPE_WORD_PREFIX @ ''.'' @ target)) k"
    "filename = name @ get_file_extension mime_type"
    "path = os_path_join OUTPUT_DIR filename"
  let ?tr = "Execute (Get file_id) # chunk_calls req k"
  let ?r = "report_and_save (Some data) filename disk fs ?tr"
  have e: "export_file file_id mime_type service = Some (Inr (Some data), chunk_calls req k)"
    using export_file_completes [OF a(4,6)] a(5,7) by simp
  have m: "main url service disk fs = Some ?r"
    using a(1-3,8) e by (simp add: main_with_meta retrieve_export)
  have n: "filter is_open ?tr = []" by (simp add: chunk_calls_not_open)
  note w = report_and_save_writes [where data = data and disk = disk and fs = fs, OF n a(9) refl]
  from e m w show "export_file file_id mime_type service = Some (Inr (Some data), chunk_calls req k)
   \<and> (\<exists>r. main url service disk fs = Some r
        \<and> filter is_open (trace r) = [OpenWb path]
        \<and> (\<forall>q. q \<noteq> path \<longrightarrow> files r q = fs q)
        \<and> (disk path = WriteCompletes \<longrightarrow>
             r = \<lparr>raised = None, files = fs(path \<mapsto> data),
                  trace = (Execute (Get file_id) # chunk_calls req k)
                    @ [Print (''Downloaded '' @ filename @ ''!''), OpenWb path, Write path data]\<rparr>))"
    by blast
qed

theorem export_written_under_name_with_extension_witness:
  "parse_URL ''https://docs.google.com/document/d/doc1/edit'' = Inr ''doc1''
   \<and> get_meta ''doc1'' sample_service
       = (Inr (Some (''Notes'', ''application/vnd.google-apps.document'')), [Execute (Get ''doc1'')])
   \<and> startswith ''application/vnd.google-apps.document'' ''application/vnd.google-apps''
   \<and> map_of MIME_TYPE_INDEX (last (split_str (CHR ''.'') ''application/vnd.google-apps.document''))
       = Some ''wordprocessingml.document''
   \<and> completes_at (files_export_media sample_service ''doc1''
        (MIME_TYPE_WORD_PREFIX @ ''.'' @ ''wordprocessingml.document'')) (Suc 0)
   \<and> [1, 2, 3] = payload (files_export_media sample_service ''doc1''
        (MIME_TYPE_WORD_PREFIX @ ''.'' @ ''wordprocessingml.document'')) (Suc 0)
   \<and> ''Notes.docx'' = ''Notes'' @ get_file_extension ''application/vnd.google-apps.document''
   \<and> ''output/Notes.docx'' = os_path_join OUTPUT_DIR ''Notes.docx''
   \<and> main ''https://docs.google.com/document/d/doc1/edit'' sample_service (\<lambda>p. WriteCompletes) Map.empty
       = Some \<lparr>raised = None, files = [''output/Notes.docx'' \<mapsto> [1, 2, 3]],
               trace = [Execute (Get ''doc1''),
                        NextChunk (ExportMedia ''doc1''
                          ''application/vnd.openxmlformats-officedocument.wordprocessingml.document'') 0,
                        NextChunk (ExportMedia ''doc1''
                          ''application/vnd.openxmlformats-officedocument.wordprocessingml.document'') 1,
                        Print ''Downloaded Notes.docx!'',
                        OpenWb ''output/Notes.docx'', Write ''output/Notes.docx'' [1, 2, 3]]\<rparr>"
proof -
  have h: "parse_URL ''https://docs.google.com/document/d/doc1/edit'' = Inr ''doc1''
     \<and> get_meta ''doc1'' sample_service
         = (Inr (Some (''Notes'', ''application/vnd.google-apps.document'')), [Execute (Get ''doc1'')])
     \<and> startswith ''application/vnd.google-apps.document'' ''application/vnd.google-apps''
     \<and> map_of MIME_TYPE_INDEX (last (split_str (CHR ''.'') ''application/vnd.google-apps.document''))
         = Some ''wordprocessingml.document''
     \<and> ExportMedia ''doc1'' ''application/vnd.openxmlformats-officedocument.wordprocessingml.document''
         = ExportMedia ''doc1'' (MIME_TYPE_WORD_PREFIX @ ''.'' @ ''wordprocessingml.document'')
     \<and> completes_at (files_export_media sample_service ''doc1''
          (MIME_TYPE_WORD_PREFIX @ ''.'' @ ''wordprocessingml.document'')) (Suc 0)
     \<and> [1, 2, 3] = payload (files_export_media sample_service ''doc1''
          (MIME_TYPE_WORD_PREFIX @ ''.'' @ ''wordprocessingml.document'')) (Suc 0)
     \<and> ''Notes.docx'' = ''Notes'' @ get_file_extension ''application/vnd.google-apps.document''
     \<and> ''output/Notes.docx'' = os_path_join OUTPUT_DIR ''Notes.docx''"
    using sample_transfers(2,3)
    by (simp add: sample_urls sample_meta_doc1 sample_types sample_paths sample_streams
          MIME_TYPE_INDEX_def MIME_TYPE_WORD_PREFIX_def get_file_extension_def)
  have k: "chunk_calls req (Suc 0) = [NextChunk req 0, NextChunk req 1]" for req
    by (simp add: chunk_calls_def upt_rec)
  from export_written_under_name_with_extension [THEN mp, OF h, of "\<lambda>p. WriteCompletes" Map.empty]
  have "main ''https://docs.google.com/document/d/doc1/edit'' sample_service (\<lambda>p. WriteCompletes) Map.empty
       = Some \<lparr>raised = None, files = [''output/Notes.docx'' \<mapsto> [1, 2, 3]],
               trace = [Execute (Get ''doc1''),
                        NextChunk (ExportMedia ''doc1''
                          ''application/vnd.openxmlformats-officedocument.wordprocessingml.document'') 0,
                        NextChunk (ExportMedia ''doc1''
                          ''application/vnd.openxmlformats-officedocument.wordprocessingml.document'') 1,
                        Print ''Downloaded Notes.docx!'',
                        OpenWb ''output/Notes.docx'', Write ''output/Notes.docx'' [1, 2, 3]]\<rparr>"
    by (clarsimp simp: k)
  with h show ?thesis by blast
qed

end
